theory Spec2Isabelle
  imports Main "HOL-Library.Sublist" "HOL-Library.Multiset" "HOL-Library.Product_Lexorder"
begin

section \<open>Python built-ins used by \<open>main.py\<close>\<close>

text \<open>
  A Python \<open>str\<close> is modelled as a HOL \<open>string\<close>: a list of the code points 0 to 255
  (Latin-1), of which \<open>len\<close> is the \<open>length\<close>. The character tables below are Python's
  \<open>str.isspace\<close>, \<open>str.isdecimal\<close>, \<open>str.isalnum\<close> and \<open>str.lower\<close> on these code
  points; code points from 256 on are outside the type.
  An instant (\<open>datetime\<close>) is a number of microseconds.
\<close>

type_synonym instant = int

definition timedelta_hours :: "int \<Rightarrow> int" where
  "timedelta_hours h = h * 3600000000"

definition isspace :: "char \<Rightarrow> bool" where
  "isspace c = (let n = (of_char c :: nat) in
     (9 \<le> n \<and> n \<le> 13) \<or> (28 \<le> n \<and> n \<le> 32) \<or> n = 133 \<or> n = 160)"

definition isdecimal :: "char \<Rightarrow> bool" where
  "isdecimal c = (let n = (of_char c :: nat) in 48 \<le> n \<and> n \<le> 57)"

text \<open>
  Beyond the ASCII letters and digits, \<open>isalnum\<close> holds of the Latin-1 letters
  (170, 181, 186, and 192 to 255 but for the signs 215 and 247) and of the numeric
  characters 178, 179, 185 and 188 to 190.
\<close>

definition isalnum :: "char \<Rightarrow> bool" where
  "isalnum c = (let n = (of_char c :: nat) in
     (48 \<le> n \<and> n \<le> 57) \<or> (65 \<le> n \<and> n \<le> 90) \<or> (97 \<le> n \<and> n \<le> 122)
     \<or> n = 170 \<or> n = 178 \<or> n = 179 \<or> n = 181 \<or> n = 185 \<or> n = 186
     \<or> (188 \<le> n \<and> n \<le> 190)
     \<or> (192 \<le> n \<and> n \<le> 255 \<and> n \<noteq> 215 \<and> n \<noteq> 247))"

text \<open>
  The upper-case letters are 65 to 90 and 192 to 222 but for the sign 215; each has its
  lower-case letter 32 places on. Every other code point is left as it is.
\<close>

definition lower_char :: "char \<Rightarrow> char" where
  "lower_char c = (let n = (of_char c :: nat) in
     if (65 \<le> n \<and> n \<le> 90) \<or> (192 \<le> n \<and> n \<le> 222 \<and> n \<noteq> 215)
     then char_of (n + 32) else c)"

text \<open>\<open>s.lower()\<close>\<close>

definition lower :: "string \<Rightarrow> string" where
  "lower s = map lower_char s"

text \<open>
  \<open>s.split()\<close> with no separator: the maximal runs of characters that are not white
  space, in order; no empty string is ever produced. \<open>w\<close> is the word being read.
\<close>

fun split_from :: "string \<Rightarrow> string \<Rightarrow> string list" where
  "split_from w [] = (if w = [] then [] else [w])"
| "split_from w (c # cs) =
     (if isspace c then (if w = [] then split_from [] cs else w # split_from [] cs)
      else split_from (w @ [c]) cs)"

definition split :: "string \<Rightarrow> string list" where
  "split s = split_from [] s"

text \<open>\<open>sep.join(xs)\<close>\<close>

fun join :: "string \<Rightarrow> string list \<Rightarrow> string" where
  "join sep [] = []"
| "join sep [x] = x"
| "join sep (x # y # ys) = x @ sep @ join sep (y # ys)"

text \<open>
  \<open>xs[:k]\<close> for an \<open>int\<close> \<open>k\<close>: the first \<open>k\<close> elements when \<open>k\<close> is not negative,
  and all but the last \<open>-k\<close> elements when it is.
\<close>

definition slice_to :: "'a list \<Rightarrow> int \<Rightarrow> 'a list" where
  "slice_to xs k = (if 0 \<le> k then take (nat k) xs else take (length xs - nat (- k)) xs)"

text \<open>
  \<open>sorted(xs, key=key, reverse=True)\<close>. The sort is stable, and \<open>reverse=True\<close> keeps
  it so: the list is reversed, sorted in ascending order of the keys by a stable sort,
  and reversed again.
\<close>

definition sorted_reverse :: "('a \<Rightarrow> nat) \<Rightarrow> 'a list \<Rightarrow> 'a list" where
  "sorted_reverse key xs = rev (sort_key key (rev xs))"

text \<open>
  A \<open>dict\<close> keeps its keys in insertion order, and \<open>items()\<close> lists them in that order:
  it is an association list. \<open>d.get(k, default)\<close> and \<open>d[k] = v\<close>:
\<close>

definition dict_get :: "('k \<times> 'v) list \<Rightarrow> 'k \<Rightarrow> 'v \<Rightarrow> 'v" where
  "dict_get d k dflt = (case map_of d k of None \<Rightarrow> dflt | Some v \<Rightarrow> v)"

fun dict_set :: "('k \<times> 'v) list \<Rightarrow> 'k \<Rightarrow> 'v \<Rightarrow> ('k \<times> 'v) list" where
  "dict_set [] k v = [(k, v)]"
| "dict_set ((k', v') # d) k v =
     (if k' = k then (k', v) # d else (k', v') # dict_set d k v)"

text \<open>Exceptions, with the text \<open>str(e)\<close> gives.\<close>

datatype py_exception = ValueError string | Forbidden string | Exception string

fun str_exc :: "py_exception \<Rightarrow> string" where
  "str_exc (ValueError m) = m"
| "str_exc (Forbidden m) = m"
| "str_exc (Exception m) = m"

text \<open>\<open>str(i)\<close> for an \<open>int\<close>: its decimal digits.\<close>

function str_nat :: "nat \<Rightarrow> string" where
  "str_nat n = (if n < 10 then [char_of (48 + n)]
                else str_nat (n div 10) @ [char_of (48 + n mod 10)])"
  by pat_completeness auto
termination
  by (relation "measure id") auto

definition str_int :: "int \<Rightarrow> string" where
  "str_int i = (if i < 0 then CHR ''-'' # str_nat (nat (- i)) else str_nat (nat i))"

text \<open>
  \<open>repr(s)\<close> of a \<open>str\<close>, as the message of \<open>int\<close> quotes its argument. The string
  stands in single quotes, or in double quotes when it holds a single quote and no double
  quote. The backslash and the quote in use are escaped by a backslash; tab, line feed
  and carriage return are written \<open>\t\<close>, \<open>\n\<close>, \<open>\r\<close>; the other characters that do
  not print (below 32, 127 to 160, and 173) are written \<open>\xhh\<close> with two lower-case
  hexadecimal digits.
\<close>

definition hex_digit :: "nat \<Rightarrow> char" where
  "hex_digit d = ''0123456789abcdef'' ! (d mod 16)"

definition repr_char :: "char \<Rightarrow> char \<Rightarrow> string" where
  "repr_char quote c = (let n = (of_char c :: nat) in
     if c = CHR 0x5C then [CHR 0x5C, CHR 0x5C]
     else if c = quote then [CHR 0x5C, quote]
     else if n = 9 then [CHR 0x5C, CHR ''t'']
     else if n = 10 then [CHR 0x5C, CHR ''n'']
     else if n = 13 then [CHR 0x5C, CHR ''r'']
     else if n < 32 \<or> (127 \<le> n \<and> n \<le> 160) \<or> n = 173
       then [CHR 0x5C, CHR ''x'', hex_digit (n div 16), hex_digit (n mod 16)]
     else [c])"

definition py_repr :: "string \<Rightarrow> string" where
  "py_repr s =
     (let quote = (if CHR 0x27 \<in> set s \<and> CHR 0x22 \<notin> set s then CHR 0x22 else CHR 0x27)
      in [quote] @ concat (map (repr_char quote) s) @ [quote])"

text \<open>
  \<open>int(s)\<close> on a \<open>str\<close>, base 10, as CPython 3.11 does it with the limit of 4300
  digits it starts with. White space around the literal is dropped (the characters 9 to
  13, the blank, 133 and 160; not 28 to 31), then an optional sign; then the digits and
  underscores that follow are read: they must begin with a digit, and an underscore must
  stand between two digits. More than 4300 digits are refused next; what is left after
  the digits is an error last of all.
\<close>

definition int_space :: "char \<Rightarrow> bool" where
  "int_space c = (let n = (of_char c :: nat) in
     (9 \<le> n \<and> n \<le> 13) \<or> n = 32 \<or> n = 133 \<or> n = 160)"

definition strip :: "string \<Rightarrow> string" where
  "strip s = rev (dropWhile int_space (rev (dropWhile int_space s)))"

definition digit_value :: "char \<Rightarrow> nat" where
  "digit_value c = of_char c - 48"

fun underscores_ok :: "string \<Rightarrow> bool" where
  "underscores_ok [] = False"
| "underscores_ok [c] = isdecimal c"
| "underscores_ok (c # d # cs) =
     (if isdecimal c then underscores_ok (d # cs)
      else c = CHR ''_'' \<and> isdecimal d \<and> underscores_ok (d # cs))"

definition digits_value :: "string \<Rightarrow> nat" where
  "digits_value ds = foldl (\<lambda>acc c. 10 * acc + digit_value c) 0 ds"

definition parse_decimal :: "string \<Rightarrow> string \<Rightarrow> py_exception + nat" where
  "parse_decimal s r =
     (let scanned = takeWhile (\<lambda>c. isdecimal c \<or> c = CHR ''_'') r;
          rest = dropWhile (\<lambda>c. isdecimal c \<or> c = CHR ''_'') r;
          digits = filter isdecimal scanned;
          invalid = ValueError (''invalid literal for int() with base 10: '' @ py_repr s)
      in if \<not> (case scanned of [] \<Rightarrow> False | c # cs \<Rightarrow> isdecimal c \<and> underscores_ok scanned)
         then Inl invalid
         else if 4300 < length digits
         then Inl (ValueError
                (''Exceeds the limit (4300 digits) for integer string conversion: value has ''
                 @ str_nat (length digits)
                 @ '' digits; use sys.set_int_max_str_digits() to increase the limit''))
         else if rest \<noteq> [] then Inl invalid
         else Inr (digits_value digits))"

definition py_int :: "string \<Rightarrow> py_exception + int" where
  "py_int s =
     (case strip s of
        [] \<Rightarrow> Inl (ValueError (''invalid literal for int() with base 10: '' @ py_repr s))
      | c # cs \<Rightarrow>
          if c = CHR ''-'' then map_sum id (\<lambda>n. - int n) (parse_decimal s cs)
          else if c = CHR ''+'' then map_sum id int (parse_decimal s cs)
          else map_sum id int (parse_decimal s (c # cs)))"

section \<open>Keyword extraction (\<open>extract_keywords\<close>)\<close>

definition stop_words :: "string set" where
  "stop_words = set [''the'', ''a'', ''an'', ''and'', ''or'', ''but'', ''in'', ''on'', ''at'',
     ''to'', ''for'', ''of'', ''with'', ''by'', ''is'', ''are'', ''was'', ''were'', ''be'',
     ''been'', ''have'', ''has'', ''had'', ''do'', ''does'', ''did'', ''will'', ''would'',
     ''could'', ''should'', ''may'', ''might'', ''can'', ''this'', ''that'', ''these'',
     ''those'', ''i'', ''you'', ''he'', ''she'', ''it'', ''we'', ''they'', ''me'', ''him'',
     ''her'', ''us'', ''them'']"

text \<open>
  The loop \<open>for word in words\<close>: punctuation is filtered out of the word, and a word
  longer than two characters that is no stop word is counted in \<open>word_freq\<close>.
\<close>

fun count_words :: "(string \<times> nat) list \<Rightarrow> string list \<Rightarrow> (string \<times> nat) list" where
  "count_words word_freq [] = word_freq"
| "count_words word_freq (word # words) =
     (let word' = filter isalnum word in
      if length word' > 2 \<and> word' \<notin> stop_words
      then count_words (dict_set word_freq word' (dict_get word_freq word' 0 + 1)) words
      else count_words word_freq words)"

definition extract_keywords :: "string \<Rightarrow> int \<Rightarrow> string list" where
  "extract_keywords text max_keywords =
     (let words = split (lower text);
          word_freq = count_words [] words;
          sorted_words = sorted_reverse snd word_freq
      in map fst (slice_to sorted_words max_keywords))"

text \<open>
  For stating the ranking: the qualifying tokens of a text in the order they are read
  (with repetitions), the frequency of a token among them, and the position of its first
  occurrence.
\<close>

definition tokens :: "string \<Rightarrow> string list" where
  "tokens text = filter (\<lambda>w. length w > 2 \<and> w \<notin> stop_words)
                   (map (filter isalnum) (split (lower text)))"

definition frequency :: "string \<Rightarrow> string \<Rightarrow> nat" where
  "frequency text w = count_list (tokens text) w"

definition first_index :: "'a list \<Rightarrow> 'a \<Rightarrow> nat" where
  "first_index xs x = length (takeWhile (\<lambda>y. y \<noteq> x) xs)"

definition first_occurrence :: "string \<Rightarrow> string \<Rightarrow> nat" where
  "first_occurrence text w = first_index (tokens text) w"

text \<open>\<open>ranks_before text a b\<close>: token \<open>a\<close> has to come before token \<open>b\<close> in the ranking.\<close>

definition ranks_before :: "string \<Rightarrow> string \<Rightarrow> string \<Rightarrow> bool" where
  "ranks_before text a b =
     (frequency text b < frequency text a \<or>
      (frequency text a = frequency text b \<and> first_occurrence text a < first_occurrence text b))"

text \<open>
  The ranking as the specification words it: the distinct qualifying tokens in order of
  descending frequency and, among tokens of one frequency, in the order of their first
  occurrences.
\<close>

definition ranking :: "string \<Rightarrow> string list" where
  "ranking text =
     sort_key (\<lambda>w. (- int (frequency text w), first_occurrence text w))
       (remdups (tokens text))"

text \<open>
  The loop of \<open>count_words\<close> seen on the qualifying tokens alone: each one is
  counted in the dict, starting from the empty dict.
\<close>

definition tally :: "string list \<Rightarrow> (string \<times> nat) list" where
  "tally toks = fold (\<lambda>w d. dict_set d w (dict_get d w 0 + 1)) toks []"

section \<open>Highlights (\<open>summarize_messages\<close>)\<close>

text \<open>
  What the program reads of a \<open>discord.Message\<close>: \<open>msg.author.display_name\<close>,
  \<open>msg.content\<close>, \<open>msg.reactions\<close> (a list, of which only the length is used) and
  \<open>msg.created_at\<close>.
\<close>

record message =
  display_name :: string
  content :: string
  reactions :: "string list"
  created_at :: instant

text \<open>
  A highlight, the dict with the keys \<open>author\<close>, \<open>content\<close>, \<open>reactions\<close> and
  \<open>timestamp\<close>. The timestamp is kept as the instant that \<open>isoformat()\<close> prints.
\<close>

record highlight =
  author :: string
  hl_content :: string
  hl_reactions :: nat
  timestamp :: instant

record message_summary =
  total_messages :: nat
  highlights :: "highlight list"
  summary_keywords :: "string list"

definition score :: "message \<Rightarrow> nat" where
  "score msg = length (content msg) + length (reactions msg) * 10"

definition messages_with_score :: "message list \<Rightarrow> (message \<times> nat) list" where
  "messages_with_score messages = map (\<lambda>msg. (msg, score msg)) messages"

definition top_messages :: "message list \<Rightarrow> (message \<times> nat) list" where
  "top_messages messages = take 5 (sorted_reverse snd (messages_with_score messages))"

definition make_highlight :: "message \<Rightarrow> highlight" where
  "make_highlight msg =
     \<lparr> author = display_name msg,
       hl_content = (if length (content msg) > 200 then take 200 (content msg) @ ''...''
                     else content msg),
       hl_reactions = length (reactions msg),
       timestamp = created_at msg \<rparr>"

text \<open>The messages chosen as highlights, best first.\<close>

definition selected_messages :: "message list \<Rightarrow> message list" where
  "selected_messages messages = map fst (top_messages messages)"

definition summarize_messages :: "message list \<Rightarrow> message_summary" where
  "summarize_messages messages =
     (if messages = [] then \<lparr> total_messages = 0, highlights = [], summary_keywords = [] \<rparr>
      else
        \<lparr> total_messages = length messages,
          highlights = map (\<lambda>(msg, score). make_highlight msg) (top_messages messages),
          summary_keywords = extract_keywords (join '' '' (map content messages)) 5 \<rparr>)"

section \<open>The watermark store (\<open>get_last_summary_timestamp\<close>, \<open>update_last_summary_timestamp\<close>)\<close>

text \<open>
  The Firestore collection \<open>servers\<close> maps a guild id to a document with the fields
  \<open>last_summary\<close> and \<open>updated_at\<close>. The state the program works on is this collection,
  the log, and the list of the calls of \<open>doc_ref.set\<close> made so far, kept to count them.
\<close>

record document =
  last_summary :: "instant option"
  updated_at :: "instant option"

datatype level = WARNING | ERROR

record state =
  servers :: "string \<rightharpoonup> document"
  set_calls :: "(string \<times> instant) list"
  log :: "(level \<times> string) list"

text \<open>
  What one call meets outside the program: whether \<open>doc_ref.get()\<close> or \<open>doc_ref.set()\<close>
  raises (and with which text), the server's time stamp, and what the clock shows at
  three moments of the run: in \<open>get_last_summary_timestamp\<close>, at the assignment
  \<open>current_time = datetime.utcnow()\<close> before the loop over the channels, and when the
  loop is over and the commit is made. The program reads the clock at the first two.
\<close>

record env =
  get_raises :: "string option"
  set_raises :: "string option"
  utcnow_default :: instant
  utcnow_run :: instant
  utcnow_commit :: instant
  server_timestamp :: instant

definition logger_warning :: "state \<Rightarrow> string \<Rightarrow> state" where
  "logger_warning st m = st\<lparr>log := log st @ [(WARNING, m)]\<rparr>"

definition logger_error :: "state \<Rightarrow> string \<Rightarrow> state" where
  "logger_error st m = st\<lparr>log := log st @ [(ERROR, m)]\<rparr>"

text \<open>\<open>doc_ref.get()\<close>: raises, or gives the document if it exists.\<close>

definition doc_get :: "env \<Rightarrow> state \<Rightarrow> string \<Rightarrow> py_exception + document option" where
  "doc_get e st guild_id =
     (case get_raises e of Some m \<Rightarrow> Inl (Exception m) | None \<Rightarrow> Inr (servers st guild_id))"

definition get_last_summary_timestamp :: "env \<Rightarrow> state \<Rightarrow> string \<Rightarrow> instant \<times> state" where
  "get_last_summary_timestamp e st guild_id =
     (case doc_get e st guild_id of
        Inl exc \<Rightarrow>
          (utcnow_default e - timedelta_hours 24,
           logger_error st (''Error getting last summary timestamp: '' @ str_exc exc))
      | Inr None \<Rightarrow> (utcnow_default e - timedelta_hours 24, st)
      | Inr (Some doc) \<Rightarrow>
          (case last_summary doc of
             Some t \<Rightarrow> (t, st)
           | None \<Rightarrow> (utcnow_default e - timedelta_hours 24, st)))"

definition update_last_summary_timestamp :: "env \<Rightarrow> state \<Rightarrow> string \<Rightarrow> instant \<Rightarrow> state" where
  "update_last_summary_timestamp e st guild_id ts =
     (let st1 = st\<lparr>set_calls := set_calls st @ [(guild_id, ts)]\<rparr> in
      case set_raises e of
        Some m \<Rightarrow> logger_error st1 (''Error updating last summary timestamp: '' @ m)
      | None \<Rightarrow>
          st1\<lparr>servers := (servers st1)(guild_id \<mapsto>
                 \<lparr> last_summary = Some ts, updated_at = Some (server_timestamp e) \<rparr>)\<rparr>)"

section \<open>The engine (\<open>get_guild_summary\<close>)\<close>

text \<open>
  The platform as the program sees it. A channel answers
  \<open>channel.history(limit=..., after=...)\<close> with its messages or raises; a failure while
  the messages are read one by one is a failure of the whole read. \<open>bot.get_guild\<close>
  gives the guild, or nothing when it is not known.
\<close>

datatype channel_type = TextChannel | VoiceChannel | CategoryChannel

record channel =
  name :: string
  id :: int
  ctype :: channel_type
  history :: "nat \<Rightarrow> instant \<Rightarrow> py_exception + message list"

record guild =
  gname :: string
  channels :: "channel list"

type_synonym bot = "int \<Rightarrow> guild option"

record channel_summary =
  channel_name :: string
  channel_id :: string
  summary :: message_summary

record guild_summary =
  guild_name :: string
  gs_guild_id :: string
  period_from :: instant
  period_to :: instant
  total_channels_with_activity :: nat
  g_total_messages :: nat
  channel_summaries :: "channel_summary list"
  member_changes :: string

datatype result = Error string | Summary guild_summary

text \<open>
  The loop \<open>for channel in text_channels\<close>, with its three accumulators
  \<open>channel_summaries\<close>, \<open>total_messages\<close> and \<open>total_channels_with_activity\<close>.
\<close>

fun for_channels :: "instant \<Rightarrow> channel list \<Rightarrow> (channel_summary list \<times> nat \<times> nat) \<times> state
    \<Rightarrow> (channel_summary list \<times> nat \<times> nat) \<times> state" where
  "for_channels last_timestamp [] acc = acc"
| "for_channels last_timestamp (channel # rest) ((sums, total_msgs, total_active), st) =
     (case history channel 500 last_timestamp of
        Inr messages \<Rightarrow>
          (if messages \<noteq> [] then
             (let summary = summarize_messages messages in
              for_channels last_timestamp rest
                ((sums @ [\<lparr> channel_name = name channel,
                            channel_id = str_int (id channel),
                            summary = summary \<rparr>],
                  total_msgs + total_messages summary,
                  total_active + 1), st))
           else for_channels last_timestamp rest ((sums, total_msgs, total_active), st))
      | Inl (Forbidden m) \<Rightarrow>
          for_channels last_timestamp rest ((sums, total_msgs, total_active),
            logger_warning st (''No permission to read channel '' @ name channel))
      | Inl exc \<Rightarrow>
          for_channels last_timestamp rest ((sums, total_msgs, total_active),
            logger_error st (''Error processing channel '' @ name channel @ '': ''
                             @ str_exc exc)))"

definition get_guild_summary :: "bot \<Rightarrow> env \<Rightarrow> state \<Rightarrow> string \<Rightarrow> result \<times> state" where
  "get_guild_summary get_guild e st guild_id =
     (case py_int guild_id of
        Inl exc \<Rightarrow>
          (Error (''Failed to generate summary: '' @ str_exc exc),
           logger_error st (''Error getting guild summary: '' @ str_exc exc))
      | Inr n \<Rightarrow>
          (case get_guild n of
             None \<Rightarrow> (Error ''Guild not found'', st)
           | Some guild \<Rightarrow>
               (let (last_timestamp, st1) = get_last_summary_timestamp e st guild_id;
                    current_time = utcnow_run e;
                    text_channels = filter (\<lambda>channel. ctype channel = TextChannel) (channels guild);
                    ((sums, total_msgs, total_active), st2) =
                       for_channels last_timestamp text_channels (([], 0, 0), st1);
                    st3 = update_last_summary_timestamp e st2 guild_id current_time
                in (Summary \<lparr> guild_name = gname guild,
                              gs_guild_id = guild_id,
                              period_from = last_timestamp,
                              period_to = current_time,
                              total_channels_with_activity = total_active,
                              g_total_messages = total_msgs,
                              channel_summaries = sums,
                              member_changes = ''Member changes not tracked in this version'' \<rparr>,
                    st3))))"

text \<open>
  What one channel adds to \<open>channel_summaries\<close> and to the log in one pass of the
  loop, for stating what the loop computes.
\<close>

definition channel_entry :: "instant \<Rightarrow> channel \<Rightarrow> channel_summary list" where
  "channel_entry last_timestamp channel =
     (case history channel 500 last_timestamp of
        Inr messages \<Rightarrow>
          (if messages \<noteq> [] then
             [\<lparr> channel_name = name channel,
                channel_id = str_int (id channel),
                summary = summarize_messages messages \<rparr>]
           else [])
      | Inl exc \<Rightarrow> [])"

definition channel_log :: "instant \<Rightarrow> channel \<Rightarrow> (level \<times> string) list" where
  "channel_log last_timestamp channel =
     (case history channel 500 last_timestamp of
        Inr messages \<Rightarrow> []
      | Inl (Forbidden m) \<Rightarrow> [(WARNING, ''No permission to read channel '' @ name channel)]
      | Inl exc \<Rightarrow> [(ERROR, ''Error processing channel '' @ name channel @ '': ''
                               @ str_exc exc)])"

definition text_channels :: "guild \<Rightarrow> channel list" where
  "text_channels g = filter (\<lambda>channel. ctype channel = TextChannel) (channels g)"

subsection \<open>Example data\<close>

definition demo_message :: message where
  "demo_message = \<lparr> display_name = ''ann'', content = ''release notes are ready'',
                     reactions = [], created_at = 1500 \<rparr>"

text \<open>A channel that answers with its messages after the lower bound, oldest first.\<close>

definition demo_channel :: channel where
  "demo_channel = \<lparr> name = ''general'', id = 7, ctype = TextChannel,
       history = (\<lambda>limit after.
          Inr (take limit (filter (\<lambda>m. after < created_at m) [demo_message]))) \<rparr>"

text \<open>The same channel when the caller may not read it, and when the read breaks.\<close>

definition demo_channel_forbidden :: channel where
  "demo_channel_forbidden = \<lparr> name = ''general'', id = 7, ctype = TextChannel,
       history = (\<lambda>limit after. Inl (Forbidden ''403 Forbidden'')) \<rparr>"

definition demo_channel_broken :: channel where
  "demo_channel_broken = \<lparr> name = ''general'', id = 7, ctype = TextChannel,
       history = (\<lambda>limit after. Inl (Exception ''connection reset'')) \<rparr>"

definition demo_channel_quiet :: channel where
  "demo_channel_quiet = \<lparr> name = ''quiet'', id = 8, ctype = TextChannel,
       history = (\<lambda>limit after. Inr []) \<rparr>"

definition demo_bot :: "channel list \<Rightarrow> bot" where
  "demo_bot cs = (\<lambda>n. if n = 42 then Some \<lparr> gname = ''guild'', channels = cs \<rparr> else None)"

definition demo_env :: env where
  "demo_env = \<lparr> get_raises = None, set_raises = None, utcnow_default = 1900,
                 utcnow_run = 2000, utcnow_commit = 2500,
                 server_timestamp = 2501 \<rparr>"

definition demo_state :: state where
  "demo_state = \<lparr> servers = [''42'' \<mapsto> \<lparr> last_summary = Some 500, updated_at = Some 501 \<rparr>],
                   set_calls = [], log = [] \<rparr>"

section \<open>Properties of the sort\<close>



lemma set_sorted_reverse: "set (sorted_reverse key xs) = set xs"
  by (simp add: sorted_reverse_def)


section \<open>Highlight selection\<close>


lemma fst_messages_with_score: "map fst (messages_with_score msgs) = msgs"
  by (simp add: messages_with_score_def comp_def)

lemma highlights_summarize:
  "highlights (summarize_messages msgs) = map make_highlight (map fst (top_messages msgs))"
  by (simp add: summarize_messages_def top_messages_def messages_with_score_def
      sorted_reverse_def case_prod_unfold)

lemma length_top_messages: "length (top_messages msgs) \<le> 5"
  by (simp add: top_messages_def)






lemma highlights_selected:
  "highlights (summarize_messages msgs) = map make_highlight (selected_messages msgs)"
  by (simp add: highlights_summarize selected_messages_def)


lemma set_selected: "set (selected_messages msgs) \<subseteq> set msgs"
proof -
  have "set (top_messages msgs) \<subseteq> set (messages_with_score msgs)"
    using set_take_subset [of 5 "sorted_reverse snd (messages_with_score msgs)"]
    by (simp add: top_messages_def set_sorted_reverse)
  then have "fst ` set (top_messages msgs) \<subseteq> fst ` set (messages_with_score msgs)"
    by (rule image_mono)
  also have "\<dots> = set (map fst (messages_with_score msgs))"
    by simp
  finally show ?thesis
    by (simp add: selected_messages_def fst_messages_with_score)
qed



section \<open>Keyword extraction: filtering and ranking\<close>

lemma lower_char_idem: "lower_char (lower_char c) = lower_char c"
proof (cases "(65 \<le> (of_char c :: nat) \<and> (of_char c :: nat) \<le> 90)
              \<or> (192 \<le> (of_char c :: nat) \<and> (of_char c :: nat) \<le> 222
                  \<and> (of_char c :: nat) \<noteq> 215)")
  case True
  then have "(of_char (char_of (of_char c + 32 :: nat)) :: nat) = of_char c + 32"
    by auto
  with True show ?thesis
    by (auto simp: lower_char_def Let_def)
next
  case False
  then show ?thesis
    by (auto simp: lower_char_def Let_def)
qed

lemma split_from_chars:
  "p \<in> set (split_from w s) \<Longrightarrow> set p \<subseteq> set w \<union> set s"
proof (induction s arbitrary: w)
  case Nil
  then show ?case by (simp split: if_splits)
next
  case (Cons c cs)
  then show ?case
    by (fastforce split: if_splits)
qed

lemma split_chars: "p \<in> set (split s) \<Longrightarrow> set p \<subseteq> set s"
  using split_from_chars [of p "[]" s] by (simp add: split_def)

lemma tokens_lower:
  assumes "w \<in> set (tokens text)"
  shows "lower w = w"
proof -
  from assms obtain p where p: "p \<in> set (split (lower text))" and w: "w = filter isalnum p"
    by (auto simp: tokens_def)
  have "lower_char c = c" if "c \<in> set w" for c
  proof -
    from that w have "c \<in> set p" by simp
    with p have "c \<in> set (lower text)" using split_chars by blast
    then obtain c0 where "c = lower_char c0" by (auto simp: lower_def)
    then show ?thesis by (simp add: lower_char_idem)
  qed
  then show ?thesis
    by (simp add: lower_def map_idI)
qed

lemma tokens_qualify:
  "w \<in> set (tokens text) \<Longrightarrow> 2 < length w \<and> w \<notin> stop_words"
  by (simp add: tokens_def)

lemma map_of_dict_set: "map_of (dict_set d k v) = (map_of d)(k \<mapsto> v)"
  by (induction d) (auto simp: fun_eq_iff)

lemma keys_dict_set:
  "map fst (dict_set d k v) = (if k \<in> set (map fst d) then map fst d else map fst d @ [k])"
  by (induction d) (auto simp: rev_image_eqI)


lemma count_words_fold:
  "count_words d words =
     fold (\<lambda>w d. dict_set d w (dict_get d w 0 + 1))
       (filter (\<lambda>w. length w > 2 \<and> w \<notin> stop_words) (map (filter isalnum) words)) d"
  by (induction words arbitrary: d) (simp_all add: Let_def)

lemma count_words_tally: "count_words [] (split (lower text)) = tally (tokens text)"
  by (simp add: count_words_fold tally_def tokens_def)

lemma tally_snoc: "tally (toks @ [w]) = dict_set (tally toks) w (dict_get (tally toks) w 0 + 1)"
  by (simp add: tally_def)

lemma map_of_tally:
  "map_of (tally toks) w = (if w \<in> set toks then Some (count_list toks w) else None)"
proof (induction toks arbitrary: w rule: rev_induct)
  case Nil
  then show ?case by (simp add: tally_def)
next
  case (snoc x xs)
  have get: "dict_get (tally xs) x 0 = count_list xs x"
    by (simp add: dict_get_def snoc.IH)
  show ?case
    by (simp add: tally_snoc map_of_dict_set get snoc.IH)
qed

lemma first_index_append_in:
  "x \<in> set xs \<Longrightarrow> first_index (xs @ ys) x = first_index xs x"
  by (simp add: first_index_def)

lemma first_index_less: "x \<in> set xs \<Longrightarrow> first_index xs x < length xs"
  by (induction xs) (auto simp: first_index_def)

lemma first_index_new: "x \<notin> set xs \<Longrightarrow> first_index (xs @ [x]) x = length xs"
  by (induction xs) (auto simp: first_index_def)

lemma keys_tally:
  "distinct (map fst (tally toks)) \<and> set (map fst (tally toks)) = set toks \<and>
   sorted_wrt (\<lambda>a b. first_index toks a < first_index toks b) (map fst (tally toks))"
proof (induction toks rule: rev_induct)
  case Nil
  then show ?case by (simp add: tally_def)
next
  case (snoc x xs)
  let ?d = "tally xs"
  from snoc have dist: "distinct (map fst ?d)" and keys: "fst ` set ?d = set xs"
    and ord: "sorted_wrt (\<lambda>a b. first_index xs a < first_index xs b) (map fst ?d)"
    by simp_all
  have ord': "sorted_wrt (\<lambda>a b. first_index (xs @ [x]) a < first_index (xs @ [x]) b) (map fst ?d)"
    using ord
    by (rule sorted_wrt_mono_rel [rotated]) (use keys in \<open>auto simp: first_index_append_in\<close>)
  show ?case
  proof (cases "x \<in> set xs")
    case True
    then have "map fst (tally (xs @ [x])) = map fst ?d"
      by (simp add: tally_snoc keys_dict_set keys)
    with dist keys ord' True show ?thesis by auto
  next
    case False
    then have k: "map fst (tally (xs @ [x])) = map fst ?d @ [x]"
      by (simp add: tally_snoc keys_dict_set keys)
    have "first_index (xs @ [x]) a < first_index (xs @ [x]) x" if "a \<in> set xs" for a
      using that False by (simp add: first_index_append_in first_index_new first_index_less)
    with dist keys ord' False show ?thesis
      by (auto simp: k sorted_wrt_append)
  qed
qed

lemma tally_count: "p \<in> set (tally toks) \<Longrightarrow> snd p = count_list toks (fst p)"
proof -
  assume "p \<in> set (tally toks)"
  then have "(fst p, snd p) \<in> set (tally toks)"
    by simp
  then have "map_of (tally toks) (fst p) = Some (snd p)"
    using keys_tally [of toks] by (simp only: map_of_eq_Some_iff)
  then show ?thesis
    by (simp add: map_of_tally split: if_splits)
qed

lemma insort_key_tie:
  assumes "sorted_wrt (\<lambda>a b. f a < f b \<or> (f a = f b \<and> R a b)) ys"
    and "\<forall>y \<in> set ys. R x y"
  shows "sorted_wrt (\<lambda>a b. f a < f b \<or> (f a = f b \<and> R a b)) (insort_key f x ys)"
  using assms by (induction ys) (auto simp: set_insort_key)

lemma sort_key_tie:
  "sorted_wrt R xs \<Longrightarrow> sorted_wrt (\<lambda>a b. f a < f b \<or> (f a = f b \<and> R a b)) (sort_key f xs)"
  by (induction xs) (auto intro: insort_key_tie)

lemma sorted_reverse_tie:
  fixes key :: "'a \<Rightarrow> nat"
  assumes "sorted_wrt R xs"
  shows "sorted_wrt (\<lambda>a b. key b < key a \<or> (key a = key b \<and> R a b)) (sorted_reverse key xs)"
proof -
  from assms have "sorted_wrt (\<lambda>a b. R b a) (rev xs)"
    by (simp add: sorted_wrt_rev)
  then have "sorted_wrt (\<lambda>a b. key a < key b \<or> (key a = key b \<and> R b a)) (sort_key key (rev xs))"
    by (rule sort_key_tie)
  then have "sorted_wrt (\<lambda>a b. key b < key a \<or> (key b = key a \<and> R a b)) (sorted_reverse key xs)"
    by (simp add: sorted_reverse_def sorted_wrt_rev)
  then show ?thesis
    by (rule sorted_wrt_mono_rel [rotated]) auto
qed

lemma slice_to_take: "\<exists>n. slice_to xs k = take n xs"
  by (auto simp: slice_to_def)

lemma ranking_sorted:
  "sorted_wrt (ranks_before text) (map fst (sorted_reverse snd (tally (tokens text))))"
proof -
  let ?toks = "tokens text"
  let ?d = "tally ?toks"
  have "sorted_wrt (\<lambda>a b. first_index ?toks (fst a) < first_index ?toks (fst b)) ?d"
    using keys_tally [of ?toks] by (simp add: sorted_wrt_map)
  then have "sorted_wrt (\<lambda>a b. snd b < snd a \<or>
       (snd a = snd b \<and> first_index ?toks (fst a) < first_index ?toks (fst b)))
       (sorted_reverse snd ?d)"
    by (rule sorted_reverse_tie)
  then have "sorted_wrt (\<lambda>a b. ranks_before text (fst a) (fst b)) (sorted_reverse snd ?d)"
    by (rule sorted_wrt_mono_rel [rotated])
       (auto simp: set_sorted_reverse ranks_before_def frequency_def first_occurrence_def
          dest!: tally_count)
  then show ?thesis
    by (simp add: sorted_wrt_map)
qed

lemma extract_keywords_take:
  "\<exists>n. extract_keywords text k = take n (map fst (sorted_reverse snd (tally (tokens text))))"
proof -
  obtain n where "slice_to (sorted_reverse snd (tally (tokens text))) k
                  = take n (sorted_reverse snd (tally (tokens text)))"
    using slice_to_take by blast
  then show ?thesis
    by (auto simp: extract_keywords_def count_words_tally Let_def take_map)
qed

lemma ranking_keys:
  "distinct (map fst (sorted_reverse snd (tally (tokens text)))) \<and>
   set (map fst (sorted_reverse snd (tally (tokens text)))) = set (tokens text)"
proof -
  have "mset (sorted_reverse snd (tally (tokens text))) = mset (tally (tokens text))"
    by (simp add: sorted_reverse_def)
  then have "mset (map fst (sorted_reverse snd (tally (tokens text))))
             = mset (map fst (tally (tokens text)))"
    by (metis mset_map)
  then show ?thesis
    using keys_tally [of "tokens text"] by (metis mset_eq_setD mset_eq_imp_distinct_iff)
qed


lemma keywords_sorted: "sorted_wrt (ranks_before text) (extract_keywords text k)"
proof -
  obtain n where "extract_keywords text k
      = take n (map fst (sorted_reverse snd (tally (tokens text))))"
    using extract_keywords_take by blast
  then show ?thesis
    by (simp add: ranking_sorted sorted_wrt_take)
qed

lemma keywords_tokens: "set (extract_keywords text k) \<subseteq> set (tokens text)"
proof -
  obtain n where "extract_keywords text k
      = take n (map fst (sorted_reverse snd (tally (tokens text))))"
    using extract_keywords_take by blast
  then show ?thesis
    using ranking_keys [of "text"]
      set_take_subset [of n "map fst (sorted_reverse snd (tally (tokens text)))"]
    by simp
qed

lemma keywords_distinct: "distinct (extract_keywords text k)"
proof -
  obtain n where "extract_keywords text k
      = take n (map fst (sorted_reverse snd (tally (tokens text))))"
    using extract_keywords_take by blast
  then show ?thesis
    using ranking_keys [of "text"] by (simp add: distinct_take)
qed

lemma keywords_best:
  assumes "a \<in> set (extract_keywords text k)"
    and "b \<in> set (tokens text)" and "b \<notin> set (extract_keywords text k)"
  shows "ranks_before text a b"
proof -
  let ?full = "map fst (sorted_reverse snd (tally (tokens text)))"
  obtain n where n: "extract_keywords text k = take n ?full"
    using extract_keywords_take by blast
  have "sorted_wrt (ranks_before text) (take n ?full @ drop n ?full)"
    by (simp add: ranking_sorted)
  then have all: "\<forall>x \<in> set (take n ?full). \<forall>y \<in> set (drop n ?full). ranks_before text x y"
    by (simp only: sorted_wrt_append) blast
  have "b \<in> set (take n ?full @ drop n ?full)"
    using assms(2) ranking_keys [of "text"] by simp
  with assms(3) n have "b \<in> set (drop n ?full)"
    by (simp only: set_append) blast
  with all assms(1) n show ?thesis
    by simp
qed

lemma keywords_length: "0 \<le> k \<Longrightarrow> int (length (extract_keywords text k)) \<le> k"
  by (simp add: extract_keywords_def slice_to_def Let_def)

lemma first_index_nth: "x \<in> set xs \<Longrightarrow> xs ! first_index xs x = x"
  using nth_length_takeWhile [of "\<lambda>y. y \<noteq> x" xs] first_index_less [of x xs]
  by (simp add: first_index_def)

lemma first_index_inj:
  "x \<in> set xs \<Longrightarrow> y \<in> set xs \<Longrightarrow> first_index xs x = first_index xs y \<Longrightarrow> x = y"
  by (metis first_index_nth)

lemma ranking_key_inj:
  "inj_on (\<lambda>w. (- int (frequency text w), first_occurrence text w)) (set (tokens text))"
  by (rule inj_onI) (auto simp: first_occurrence_def dest: first_index_inj)

lemma map_fst_slice_to: "map fst (slice_to xs k) = slice_to (map fst xs) k"
  by (simp add: slice_to_def take_map)

lemma ranking_refines:
  "map fst (sorted_reverse snd (tally (tokens text))) = ranking text"
proof -
  let ?key = "\<lambda>w. (- int (frequency text w), first_occurrence text w)"
  let ?F = "map fst (sorted_reverse snd (tally (tokens text)))"
  have keys: "distinct ?F" "set ?F = set (tokens text)"
    using ranking_keys [of "text"] by simp_all
  have "ranks_before text a b \<Longrightarrow> ?key a \<le> ?key b" for a b
    by (auto simp: ranks_before_def)
  with ranking_sorted [of "text"] have "sorted_wrt (\<lambda>a b. ?key a \<le> ?key b) ?F"
    by (metis (no_types, lifting) sorted_wrt_mono_rel)
  then have sF: "sorted (map ?key ?F)"
    by (simp only: sorted_map)
  have dF: "distinct (map ?key ?F)"
    using keys ranking_key_inj [of "text"] by (simp only: distinct_map)
  have sR: "sorted (map ?key (ranking text))"
    by (simp add: ranking_def)
  have dR: "distinct (map ?key (ranking text))"
    using ranking_key_inj [of "text"] by (simp add: distinct_map ranking_def)
  have sets: "set ?F = set (ranking text)"
    using keys by (simp add: ranking_def)
  have inj: "inj_on ?key (set ?F \<union> set (ranking text))"
    using ranking_key_inj [of "text"] keys sets by simp
  from inj sF dF sR dR sets show ?thesis
    by (rule map_sorted_distinct_set_unique)
qed

lemma extract_keywords_ranking: "extract_keywords text k = slice_to (ranking text) k"
  by (simp add: extract_keywords_def count_words_tally Let_def map_fst_slice_to
      ranking_refines)

text \<open>
  Claim C2. For every text and every \<open>max_keywords\<close> the keywords come in ranking
  order: a token of higher frequency before one of lower frequency, and of two tokens of
  equal frequency the one whose first occurrence is earlier in the text first. They are
  qualifying tokens of the text, and every qualifying token left out ranks after every
  keyword returned. For a count \<open>max_keywords\<close> (not negative) the result is exactly
  the first \<open>max_keywords\<close> tokens of the ranking of the text, all of them when there
  are fewer; for a negative \<open>max_keywords\<close> it is the ranking without its last
  \<open>-max_keywords\<close> tokens. For the text \<open>The quick brown fox. Fox is quick.\<close> and
  \<open>max_keywords = 2\<close> the result is exactly \<open>quick\<close>, \<open>fox\<close>.
\<close>

theorem keyword_ranking:
  "sorted_wrt (ranks_before text) (extract_keywords text max_keywords)
   \<and> set (extract_keywords text max_keywords) \<subseteq> set (tokens text)
   \<and> (\<forall>a \<in> set (extract_keywords text max_keywords).
        \<forall>b \<in> set (tokens text) - set (extract_keywords text max_keywords).
          ranks_before text a b)
   \<and> (0 \<le> max_keywords \<longrightarrow>
        extract_keywords text max_keywords = take (nat max_keywords) (ranking text))
   \<and> (max_keywords < 0 \<longrightarrow>
        extract_keywords text max_keywords
          = take (length (ranking text) - nat (- max_keywords)) (ranking text))
   \<and> (0 \<le> max_keywords \<longrightarrow>
        length (extract_keywords text max_keywords)
          = min (nat max_keywords) (card (set (tokens text))))
   \<and> extract_keywords ''The quick brown fox. Fox is quick.'' 2 = [''quick'', ''fox'']"
proof -
  have ex: "extract_keywords ''The quick brown fox. Fox is quick.'' 2 = [''quick'', ''fox'']"
    by code_simp
  have "distinct (ranking text)" "set (ranking text) = set (tokens text)"
    by (simp_all add: ranking_def)
  then have len: "length (ranking text) = card (set (tokens text))"
    by (metis distinct_card)
  have pos: "extract_keywords text max_keywords = take (nat max_keywords) (ranking text)"
    if "0 \<le> max_keywords"
    using that by (simp add: extract_keywords_ranking slice_to_def)
  have neg: "extract_keywords text max_keywords
          = take (length (ranking text) - nat (- max_keywords)) (ranking text)"
    if "max_keywords < 0"
    using that by (simp add: extract_keywords_ranking slice_to_def)
  have count: "length (extract_keywords text max_keywords)
          = min (nat max_keywords) (card (set (tokens text)))"
    if "0 \<le> max_keywords"
    using pos [OF that] len by (simp add: min.commute)
  show ?thesis
    using keywords_best [of _ "text" max_keywords] ex pos neg count
    by (simp add: keywords_sorted keywords_tokens)
qed

theorem keyword_ranking_witness:
  "extract_keywords ''The quick brown fox. Fox is quick.'' 2 = [''quick'', ''fox'']
   \<and> ranking ''The quick brown fox. Fox is quick.'' = [''quick'', ''fox'', ''brown'']
   \<and> extract_keywords ''The quick brown fox. Fox is quick.'' 2
       = take 2 (ranking ''The quick brown fox. Fox is quick.'')
   \<and> extract_keywords ''The quick brown fox. Fox is quick.'' (- 1)
       = take 2 (ranking ''The quick brown fox. Fox is quick.'')
   \<and> length (extract_keywords ''The quick brown fox. Fox is quick.'' 2) = 2
   \<and> ranks_before ''The quick brown fox. Fox is quick.'' ''quick'' ''fox''
   \<and> ranks_before ''The quick brown fox. Fox is quick.'' ''quick'' ''brown''
   \<and> frequency ''The quick brown fox. Fox is quick.'' ''quick'' = 2
   \<and> frequency ''The quick brown fox. Fox is quick.'' ''fox'' = 2
   \<and> first_occurrence ''The quick brown fox. Fox is quick.'' ''quick'' = 0
   \<and> first_occurrence ''The quick brown fox. Fox is quick.'' ''fox'' = 2"
proof -
  let ?T = "''The quick brown fox. Fox is quick.''"
  have res: "extract_keywords ?T 2 = [''quick'', ''fox'']"
    by code_simp
  have toks: "tokens ?T = [''quick'', ''brown'', ''fox'', ''fox'', ''quick'']"
    by code_simp
  have rk: "ranking ?T = [''quick'', ''fox'', ''brown'']"
    by code_simp
  note inst = keyword_ranking [of ?T 2]
  note inst' = keyword_ranking [of ?T "- 1"]
  from inst have "sorted_wrt (ranks_before ?T) (extract_keywords ?T 2)"
    by (rule conjunct1)
  then have r1: "ranks_before ?T ''quick'' ''fox''"
    by (simp add: res)
  from inst have "\<forall>a \<in> set (extract_keywords ?T 2).
        \<forall>b \<in> set (tokens ?T) - set (extract_keywords ?T 2). ranks_before ?T a b"
    by blast
  then have r2: "ranks_before ?T ''quick'' ''brown''"
    by (simp add: res toks)
  from inst have t2: "extract_keywords ?T 2 = take 2 (ranking ?T)"
    by simp
  from inst' have t1: "extract_keywords ?T (- 1) = take 2 (ranking ?T)"
    by (simp add: rk)
  show ?thesis
    using res r1 r2 t1 t2 rk
    by (simp add: frequency_def first_occurrence_def first_index_def toks)
qed

text \<open>
  Claim C4. For every text and every \<open>max_keywords\<close> no keyword is a stop word, every
  keyword is longer than two characters and is left unchanged by \<open>lower\<close>, and the
  keywords are pairwise distinct. For every count \<open>max_keywords\<close> (a number that is
  not negative) there are at most \<open>max_keywords\<close> of them.
\<close>

theorem keyword_filter:
  "(\<forall>w \<in> set (extract_keywords text max_keywords).
      w \<notin> stop_words \<and> 2 < length w \<and> lower w = w)
   \<and> distinct (extract_keywords text max_keywords)
   \<and> (0 \<le> max_keywords \<longrightarrow> int (length (extract_keywords text max_keywords)) \<le> max_keywords)"
  using keywords_tokens [of "text" max_keywords] tokens_lower [of _ "text"] tokens_qualify [of _ "text"]
  by (auto simp: keywords_distinct keywords_length)

theorem keyword_filter_witness:
  "extract_keywords ''The quick brown fox. Fox is quick.'' 2 = [''quick'', ''fox'']
   \<and> ''quick'' \<notin> stop_words \<and> 2 < length ''quick'' \<and> lower ''quick'' = ''quick''
   \<and> distinct (extract_keywords ''The quick brown fox. Fox is quick.'' 2)
   \<and> (0::int) \<le> 2
   \<and> int (length (extract_keywords ''The quick brown fox. Fox is quick.'' 2)) \<le> 2"
proof -
  let ?T = "''The quick brown fox. Fox is quick.''"
  have res: "extract_keywords ?T 2 = [''quick'', ''fox'']"
    by code_simp
  then have mem: "''quick'' \<in> set (extract_keywords ?T 2)"
    by simp
  note inst = keyword_filter [of ?T 2]
  from inst mem have "''quick'' \<notin> stop_words \<and> 2 < length ''quick'' \<and> lower ''quick'' = ''quick''"
    by blast
  moreover from inst have "distinct (extract_keywords ?T 2)"
    by blast
  moreover from inst have "int (length (extract_keywords ?T 2)) \<le> 2"
    by simp
  ultimately show ?thesis
    using res by simp
qed

section \<open>Truncation of highlights\<close>

lemma selected_nth_mem:
  "i < length (selected_messages msgs) \<Longrightarrow> selected_messages msgs ! i \<in> set msgs"
  using set_selected [of msgs] nth_mem [of i "selected_messages msgs"] by blast

text \<open>
  Claim C5. The \<open>i\<close>-th highlight is made from the \<open>i\<close>-th selected message, a
  message of the batch. Its content is the first 200 characters of the body followed by
  the marker \<open>...\<close> when the body is longer than 200 characters, and the body itself
  otherwise; the marker is appended if and only if the body is longer than 200
  characters, and in both cases the content starts with the first 200 characters of the
  body.
\<close>

theorem highlight_truncation:
  assumes "i < length (highlights (summarize_messages msgs))"
  shows "(let m = selected_messages msgs ! i;
              h = highlights (summarize_messages msgs) ! i
          in m \<in> set msgs
           \<and> hl_content h = (if 200 < length (content m) then take 200 (content m) @ ''...''
                             else content m)
           \<and> (hl_content h = take 200 (content m) @ ''...'' \<longleftrightarrow> 200 < length (content m))
           \<and> (length (content m) \<le> 200 \<longrightarrow> hl_content h = content m)
           \<and> take 200 (hl_content h) = take 200 (content m))"
proof -
  from assms have i: "i < length (selected_messages msgs)"
    by (simp add: highlights_selected)
  then have "highlights (summarize_messages msgs) ! i
             = make_highlight (selected_messages msgs ! i)"
    by (simp add: highlights_selected)
  then show ?thesis
    using selected_nth_mem [OF i]
    by (simp add: Let_def make_highlight_def)
qed

theorem highlight_truncation_witness:
  "hl_content (highlights (summarize_messages
      [\<lparr>display_name = ''ann'', content = replicate 201 CHR ''x'', reactions = [],
         created_at = 1\<rparr>]) ! 0)
     = replicate 200 CHR ''x'' @ ''...''
   \<and> hl_content (highlights (summarize_messages [demo_message]) ! 0)
     = ''release notes are ready''"
proof -
  let ?long = "\<lparr>display_name = ''ann'', content = replicate 201 CHR ''x'', reactions = [],
         created_at = 1\<rparr>"
  have sel: "selected_messages [m] = [m]" for m
    by (simp add: selected_messages_def top_messages_def messages_with_score_def
        sorted_reverse_def)
  have len: "0 < length (highlights (summarize_messages [m]))" for m
    by (simp add: highlights_selected sel)
  have "200 < length (content ?long)"
    by simp
  with highlight_truncation [OF len, of ?long]
  have a: "hl_content (highlights (summarize_messages [?long]) ! 0)
           = replicate 200 CHR ''x'' @ ''...''"
    by (simp add: Let_def sel)
  have "length (content demo_message) \<le> 200"
    by (simp add: demo_message_def)
  with highlight_truncation [OF len, of demo_message]
  have b: "hl_content (highlights (summarize_messages [demo_message]) ! 0)
           = content demo_message"
    by (simp add: Let_def sel)
  from a b show ?thesis
    by (simp add: demo_message_def)
qed

section \<open>The watermark store\<close>

lemma get_last_summary_timestamp_store:
  "servers (snd (get_last_summary_timestamp e st gid)) = servers st \<and>
   set_calls (snd (get_last_summary_timestamp e st gid)) = set_calls st"
  by (simp add: get_last_summary_timestamp_def doc_get_def logger_error_def
      split: option.splits)

text \<open>
  Claim C6. \<open>get_last_summary_timestamp\<close> always returns an instant: the stored
  \<open>last_summary\<close> when the read succeeds and the document has one; the instant 24
  hours (in microseconds) before the current time when there is no document, or no
  \<open>last_summary\<close> in it, and also when the read raises. In the last case the error is
  logged and the store is not touched.
\<close>

theorem watermark_get:
  "(get_raises e = None \<and> servers st gid = Some doc \<and> last_summary doc = Some t \<longrightarrow>
      get_last_summary_timestamp e st gid = (t, st))
   \<and> (get_raises e = None \<and> servers st gid = None \<longrightarrow>
      get_last_summary_timestamp e st gid = (utcnow_default e - 24 * 60 * 60 * 1000000, st))
   \<and> (get_raises e = None \<and> servers st gid = Some doc \<and> last_summary doc = None \<longrightarrow>
      get_last_summary_timestamp e st gid = (utcnow_default e - 24 * 60 * 60 * 1000000, st))
   \<and> (get_raises e = Some m \<longrightarrow>
      fst (get_last_summary_timestamp e st gid) = utcnow_default e - 24 * 60 * 60 * 1000000 \<and>
      servers (snd (get_last_summary_timestamp e st gid)) = servers st \<and>
      set_calls (snd (get_last_summary_timestamp e st gid)) = set_calls st \<and>
      log (snd (get_last_summary_timestamp e st gid))
        = log st @ [(ERROR, ''Error getting last summary timestamp: '' @ m)])"
  by (simp add: get_last_summary_timestamp_def doc_get_def logger_error_def
      timedelta_hours_def)

theorem watermark_get_witness:
  "get_last_summary_timestamp demo_env demo_state ''42'' = (500, demo_state)
   \<and> get_last_summary_timestamp demo_env demo_state ''43'' = (1900 - 86400000000, demo_state)
   \<and> fst (get_last_summary_timestamp demo_env
            (demo_state\<lparr>servers := [''42'' \<mapsto> \<lparr>last_summary = None, updated_at = None\<rparr>]\<rparr>)
            ''42'') = 1900 - 86400000000
   \<and> fst (get_last_summary_timestamp (demo_env\<lparr>get_raises := Some ''unavailable''\<rparr>)
            demo_state ''42'') = 1900 - 86400000000
   \<and> log (snd (get_last_summary_timestamp (demo_env\<lparr>get_raises := Some ''unavailable''\<rparr>)
            demo_state ''42''))
      = [(ERROR, ''Error getting last summary timestamp: unavailable'')]"
proof -
  have a: "get_last_summary_timestamp demo_env demo_state ''42'' = (500, demo_state)"
    using watermark_get [of demo_env demo_state "''42''"
        "\<lparr>last_summary = Some 500, updated_at = Some 501\<rparr>" 500]
    by (simp add: demo_env_def demo_state_def)
  have b: "get_last_summary_timestamp demo_env demo_state ''43''
           = (1900 - 86400000000, demo_state)"
    using watermark_get [of demo_env demo_state "''43''"]
    by (simp add: demo_env_def demo_state_def)
  have c: "fst (get_last_summary_timestamp (demo_env\<lparr>get_raises := Some ''unavailable''\<rparr>)
            demo_state ''42'') = 1900 - 86400000000
     \<and> log (snd (get_last_summary_timestamp (demo_env\<lparr>get_raises := Some ''unavailable''\<rparr>)
            demo_state ''42''))
      = [(ERROR, ''Error getting last summary timestamp: unavailable'')]"
    using watermark_get [of "demo_env\<lparr>get_raises := Some ''unavailable''\<rparr>" demo_state
        "''42''" _ _ "''unavailable''"]
    by (simp add: demo_env_def demo_state_def)
  have d: "fst (get_last_summary_timestamp demo_env
            (demo_state\<lparr>servers := [''42'' \<mapsto> \<lparr>last_summary = None, updated_at = None\<rparr>]\<rparr>)
            ''42'') = 1900 - 86400000000"
    using watermark_get [of demo_env
        "demo_state\<lparr>servers := [''42'' \<mapsto> \<lparr>last_summary = None, updated_at = None\<rparr>]\<rparr>"
        "''42''" "\<lparr>last_summary = None, updated_at = None\<rparr>"]
    by (simp add: demo_env_def)
  from a b c d show ?thesis
    by simp
qed

section \<open>The engine\<close>

lemma for_channels_eq:
  "for_channels ts cs ((sums, t, a), st) =
     ((sums @ concat (map (channel_entry ts) cs),
       t + sum_list (map (\<lambda>s. total_messages (summary s)) (concat (map (channel_entry ts) cs))),
       a + length (concat (map (channel_entry ts) cs))),
      st\<lparr>log := log st @ concat (map (channel_log ts) cs)\<rparr>)"
proof (induction cs arbitrary: sums t a st)
  case Nil
  show ?case by simp
next
  case (Cons c cs)
  show ?case
  proof (cases "history c 500 ts")
    case (Inr ms)
    then show ?thesis
      by (simp add: Cons.IH channel_entry_def channel_log_def Let_def)
  next
    case (Inl exc)
    then show ?thesis
      by (cases exc)
         (simp_all add: Cons.IH channel_entry_def channel_log_def logger_warning_def
            logger_error_def)
  qed
qed

lemma get_guild_summary_resolved:
  assumes "py_int gid = Inr n" and "get_guild n = Some g"
  shows "get_guild_summary get_guild e st gid =
     (Summary \<lparr> guild_name = gname g,
                gs_guild_id = gid,
                period_from = fst (get_last_summary_timestamp e st gid),
                period_to = utcnow_run e,
                total_channels_with_activity =
                  length (concat (map (channel_entry (fst (get_last_summary_timestamp e st gid)))
                                      (text_channels g))),
                g_total_messages =
                  sum_list (map (\<lambda>s. total_messages (summary s))
                    (concat (map (channel_entry (fst (get_last_summary_timestamp e st gid)))
                                 (text_channels g)))),
                channel_summaries =
                  concat (map (channel_entry (fst (get_last_summary_timestamp e st gid)))
                              (text_channels g)),
                member_changes = ''Member changes not tracked in this version'' \<rparr>,
      update_last_summary_timestamp e
        ((snd (get_last_summary_timestamp e st gid))
           \<lparr>log := log (snd (get_last_summary_timestamp e st gid))
                   @ concat (map (channel_log (fst (get_last_summary_timestamp e st gid)))
                                 (text_channels g))\<rparr>)
        gid (utcnow_run e))"
  by (simp add: get_guild_summary_def assms for_channels_eq text_channels_def
      case_prod_unfold Let_def)

lemma update_store:
  "set_calls (update_last_summary_timestamp e st gid ts) = set_calls st @ [(gid, ts)]"
  "set_raises e = None \<Longrightarrow>
     servers (update_last_summary_timestamp e st gid ts)
       = (servers st)(gid \<mapsto> \<lparr>last_summary = Some ts, updated_at = Some (server_timestamp e)\<rparr>)"
  "set_raises e = Some m \<Longrightarrow> servers (update_last_summary_timestamp e st gid ts) = servers st"
  "set_raises e = None \<Longrightarrow> log (update_last_summary_timestamp e st gid ts) = log st"
  "set_raises e = Some m \<Longrightarrow> log (update_last_summary_timestamp e st gid ts)
      = log st @ [(ERROR, ''Error updating last summary timestamp: '' @ m)]"
  by (simp_all add: update_last_summary_timestamp_def logger_error_def Let_def
      split: option.splits)

lemma update_servers_log:
  "servers (update_last_summary_timestamp e (st\<lparr>log := l\<rparr>) gid ts)
     = servers (update_last_summary_timestamp e st gid ts)"
  by (simp add: update_last_summary_timestamp_def logger_error_def Let_def split: option.splits)

lemma channel_entry_total:
  "s \<in> set (channel_entry ts c) \<Longrightarrow> 0 < total_messages (summary s)"
  by (auto simp: channel_entry_def summarize_messages_def split: sum.splits if_splits)

text \<open>
  Claim C7. When the guild id does not resolve (\<open>bot.get_guild\<close> knows no guild of
  that id, or the id is no integer literal at all), the run returns an error result with
  a cause that is not empty: \<open>Guild not found\<close> in the first case, the text of the
  caught exception after \<open>Failed to generate summary: \<close> in the second. The stored
  watermarks are left as they were, and no write is attempted.
\<close>

theorem unresolved_guild:
  assumes "case py_int gid of Inl exc \<Rightarrow> True | Inr n \<Rightarrow> get_guild n = None"
  shows "(\<exists>cause. fst (get_guild_summary get_guild e st gid) = Error cause \<and> cause \<noteq> [])
       \<and> servers (snd (get_guild_summary get_guild e st gid)) = servers st
       \<and> set_calls (snd (get_guild_summary get_guild e st gid)) = set_calls st
       \<and> (\<forall>n. py_int gid = Inr n \<longrightarrow>
             get_guild_summary get_guild e st gid = (Error ''Guild not found'', st))
       \<and> (\<forall>exc. py_int gid = Inl exc \<longrightarrow>
             fst (get_guild_summary get_guild e st gid)
               = Error (''Failed to generate summary: '' @ str_exc exc))"
  using assms
  by (auto simp: get_guild_summary_def logger_error_def split: sum.splits)

theorem unresolved_guild_witness:
  "get_guild_summary (demo_bot [demo_channel]) demo_env demo_state ''43''
     = (Error ''Guild not found'', demo_state)
   \<and> fst (get_guild_summary (demo_bot [demo_channel]) demo_env demo_state ''x43'')
     = Error (''Failed to generate summary: invalid literal for int() with base 10: '' @ [CHR 0x27] @ ''x43'' @ [CHR 0x27])
   \<and> servers (snd (get_guild_summary (demo_bot [demo_channel]) demo_env demo_state ''x43''))
     = servers demo_state
   \<and> set_calls (snd (get_guild_summary (demo_bot [demo_channel]) demo_env demo_state ''x43''))
     = set_calls demo_state"
proof -
  have p43: "py_int ''43'' = Inr 43"
    by code_simp
  have px: "py_int ''x43''
            = Inl (ValueError (''invalid literal for int() with base 10: '' @ [CHR 0x27] @ ''x43'' @ [CHR 0x27]))"
    by code_simp
  have h1: "case py_int ''43'' of Inl exc \<Rightarrow> True | Inr n \<Rightarrow> demo_bot [demo_channel] n = None"
    by (simp add: p43 demo_bot_def)
  have h2: "case py_int ''x43'' of Inl exc \<Rightarrow> True | Inr n \<Rightarrow> demo_bot [demo_channel] n = None"
    by (simp add: px)
  from unresolved_guild [OF h1, of demo_env demo_state] p43
  have a: "get_guild_summary (demo_bot [demo_channel]) demo_env demo_state ''43''
     = (Error ''Guild not found'', demo_state)"
    by blast
  from unresolved_guild [OF h2, of demo_env demo_state] px
  have b: "fst (get_guild_summary (demo_bot [demo_channel]) demo_env demo_state ''x43'')
     = Error (''Failed to generate summary: '' @
          str_exc (ValueError (''invalid literal for int() with base 10: '' @ [CHR 0x27] @ ''x43'' @ [CHR 0x27])))
   \<and> servers (snd (get_guild_summary (demo_bot [demo_channel]) demo_env demo_state ''x43''))
     = servers demo_state
   \<and> set_calls (snd (get_guild_summary (demo_bot [demo_channel]) demo_env demo_state ''x43''))
     = set_calls demo_state"
    by blast
  from a b show ?thesis
    by simp
qed

lemma py_int_42: "py_int ''42'' = Inr 42"
  by code_simp

lemma demo_lower_bound: "fst (get_last_summary_timestamp demo_env demo_state ''42'') = 500"
  by (simp add: get_last_summary_timestamp_def doc_get_def demo_env_def demo_state_def)

lemma text_channels_split:
  assumes "channels g = cs1 @ c # cs2"
  shows "text_channels g =
           filter (\<lambda>channel. ctype channel = TextChannel) cs1
           @ (if ctype c = TextChannel then [c] else [])
           @ filter (\<lambda>channel. ctype channel = TextChannel) cs2"
    and "text_channels (g\<lparr>channels := cs1 @ cs2\<rparr>) =
           filter (\<lambda>channel. ctype channel = TextChannel) cs1
           @ filter (\<lambda>channel. ctype channel = TextChannel) cs2"
  using assms by (simp_all add: text_channels_def)

lemma update_log_mono:
  "set (log st) \<subseteq> set (log (update_last_summary_timestamp e st gid ts))"
  by (auto simp: update_last_summary_timestamp_def logger_error_def Let_def
      split: option.splits)

text \<open>
  Claim C8. A channel that yields no message after the lower bound adds nothing to the
  run: result and state are those of the same run on the guild without that channel.
  The channel list of the digest holds an entry for exactly the text channels that
  yielded messages, in the guild's order; every entry counts at least one message; the
  number of active channels is the number of entries, and the total is the sum of the
  entries' message counts.
\<close>

theorem empty_channel_omitted:
  assumes "py_int gid = Inr n" and "get_guild n = Some g"
    and "channels g = cs1 @ c # cs2"
    and "history c 500 (fst (get_last_summary_timestamp e st gid)) = Inr []"
    and "get_guild' n = Some (g\<lparr>channels := cs1 @ cs2\<rparr>)"
  shows "get_guild_summary get_guild e st gid = get_guild_summary get_guild' e st gid
       \<and> (\<exists>d. fst (get_guild_summary get_guild e st gid) = Summary d
            \<and> channel_summaries d =
                concat (map (channel_entry (fst (get_last_summary_timestamp e st gid)))
                          (text_channels (g\<lparr>channels := cs1 @ cs2\<rparr>)))
            \<and> total_channels_with_activity d = length (channel_summaries d)
            \<and> g_total_messages d
                = sum_list (map (\<lambda>s. total_messages (summary s)) (channel_summaries d))
            \<and> (\<forall>s \<in> set (channel_summaries d). 0 < total_messages (summary s)))"
proof -
  let ?ts = "fst (get_last_summary_timestamp e st gid)"
  note r1 = get_guild_summary_resolved [where get_guild = get_guild and g = g, OF assms(1,2)]
  note r2 = get_guild_summary_resolved [where get_guild = get_guild'
      and g = "g\<lparr>channels := cs1 @ cs2\<rparr>", OF assms(1) assms(5)]
  have quiet: "channel_entry ?ts c = []" "channel_log ?ts c = []"
    using assms(4) by (simp_all add: channel_entry_def channel_log_def)
  have entries: "concat (map (channel_entry ?ts) (text_channels g))
                 = concat (map (channel_entry ?ts) (text_channels (g\<lparr>channels := cs1 @ cs2\<rparr>)))"
    by (simp add: text_channels_split [OF assms(3)] quiet)
  have logs: "concat (map (channel_log ?ts) (text_channels g))
                 = concat (map (channel_log ?ts) (text_channels (g\<lparr>channels := cs1 @ cs2\<rparr>)))"
    by (simp add: text_channels_split [OF assms(3)] quiet)
  have same: "get_guild_summary get_guild e st gid = get_guild_summary get_guild' e st gid"
    by (simp add: r1
        r2 entries logs)
  have pos: "\<forall>s \<in> set (concat (map (channel_entry ?ts)
                  (text_channels (g\<lparr>channels := cs1 @ cs2\<rparr>)))). 0 < total_messages (summary s)"
    by (auto dest: channel_entry_total)
  show ?thesis
    using same pos
    by (simp add: r2)
qed

theorem empty_channel_omitted_witness:
  "get_guild_summary (demo_bot [demo_channel, demo_channel_quiet]) demo_env demo_state ''42''
     = get_guild_summary (demo_bot [demo_channel]) demo_env demo_state ''42''
   \<and> fst (get_guild_summary (demo_bot [demo_channel, demo_channel_quiet]) demo_env demo_state
          ''42'')
     = Summary \<lparr> guild_name = ''guild'', gs_guild_id = ''42'', period_from = 500,
         period_to = 2000, total_channels_with_activity = 1, g_total_messages = 1,
         channel_summaries =
           [\<lparr> channel_name = ''general'', channel_id = ''7'',
              summary = \<lparr> total_messages = 1,
                 highlights = [\<lparr> author = ''ann'', hl_content = ''release notes are ready'',
                                 hl_reactions = 0, timestamp = 1500 \<rparr>],
                 summary_keywords = [''release'', ''notes'', ''ready''] \<rparr> \<rparr>],
         member_changes = ''Member changes not tracked in this version'' \<rparr>"
proof -
  have h2: "demo_bot [demo_channel, demo_channel_quiet] 42
            = Some \<lparr>gname = ''guild'', channels = [demo_channel, demo_channel_quiet]\<rparr>"
    by (simp add: demo_bot_def)
  have h3: "channels \<lparr>gname = ''guild'', channels = [demo_channel, demo_channel_quiet]\<rparr>
            = [demo_channel] @ demo_channel_quiet # []"
    by simp
  have h4: "history demo_channel_quiet 500
              (fst (get_last_summary_timestamp demo_env demo_state ''42'')) = Inr []"
    by (simp add: demo_channel_quiet_def)
  have h5: "demo_bot [demo_channel] 42
            = Some (\<lparr>gname = ''guild'', channels = [demo_channel, demo_channel_quiet]\<rparr>
                      \<lparr>channels := [demo_channel] @ []\<rparr>)"
    by (simp add: demo_bot_def)
  have same: "get_guild_summary (demo_bot [demo_channel, demo_channel_quiet]) demo_env
                 demo_state ''42''
     = get_guild_summary (demo_bot [demo_channel]) demo_env demo_state ''42''"
    using empty_channel_omitted [where get_guild = "demo_bot [demo_channel, demo_channel_quiet]"
        and get_guild' = "demo_bot [demo_channel]", OF py_int_42 h2 h3 h4 h5]
    by (rule conjunct1)
  have "fst (get_guild_summary (demo_bot [demo_channel]) demo_env demo_state ''42'')
     = Summary \<lparr> guild_name = ''guild'', gs_guild_id = ''42'', period_from = 500,
         period_to = 2000, total_channels_with_activity = 1, g_total_messages = 1,
         channel_summaries =
           [\<lparr> channel_name = ''general'', channel_id = ''7'',
              summary = \<lparr> total_messages = 1,
                 highlights = [\<lparr> author = ''ann'', hl_content = ''release notes are ready'',
                                 hl_reactions = 0, timestamp = 1500 \<rparr>],
                 summary_keywords = [''release'', ''notes'', ''ready''] \<rparr> \<rparr>],
         member_changes = ''Member changes not tracked in this version'' \<rparr>"
    by code_simp
  with same show ?thesis
    by simp
qed

text \<open>
  Claim C9. When reading a text channel raises (\<open>Forbidden\<close> or any other
  exception), the run still returns a digest, and it is the digest of the same run on
  the guild without that channel: the channels before and after the failing one
  contribute their entries as usual. The store is written as in that run, and the log
  holds a warning naming the channel (for \<open>Forbidden\<close>) or an error naming the
  channel and the exception (otherwise).
\<close>

theorem channel_failure_skipped:
  assumes "py_int gid = Inr n" and "get_guild n = Some g"
    and "channels g = cs1 @ c # cs2"
    and "ctype c = TextChannel"
    and "history c 500 (fst (get_last_summary_timestamp e st gid)) = Inl exc"
    and "get_guild' n = Some (g\<lparr>channels := cs1 @ cs2\<rparr>)"
  shows "fst (get_guild_summary get_guild e st gid) = fst (get_guild_summary get_guild' e st gid)
       \<and> (\<exists>d. fst (get_guild_summary get_guild e st gid) = Summary d
            \<and> channel_summaries d =
                concat (map (channel_entry (fst (get_last_summary_timestamp e st gid)))
                          (filter (\<lambda>channel. ctype channel = TextChannel) cs1))
                @ concat (map (channel_entry (fst (get_last_summary_timestamp e st gid)))
                          (filter (\<lambda>channel. ctype channel = TextChannel) cs2)))
       \<and> servers (snd (get_guild_summary get_guild e st gid))
           = servers (snd (get_guild_summary get_guild' e st gid))
       \<and> set_calls (snd (get_guild_summary get_guild e st gid))
           = set_calls (snd (get_guild_summary get_guild' e st gid))
       \<and> (case exc of
             Forbidden m \<Rightarrow> (WARNING, ''No permission to read channel '' @ name c)
           | _ \<Rightarrow> (ERROR, ''Error processing channel '' @ name c @ '': '' @ str_exc exc))
           \<in> set (log (snd (get_guild_summary get_guild e st gid)))"
proof -
  let ?ts = "fst (get_last_summary_timestamp e st gid)"
  let ?entry = "case exc of
             Forbidden m \<Rightarrow> (WARNING, ''No permission to read channel '' @ name c)
           | _ \<Rightarrow> (ERROR, ''Error processing channel '' @ name c @ '': '' @ str_exc exc)"
  note r1 = get_guild_summary_resolved [where get_guild = get_guild and g = g, OF assms(1,2)]
  note r2 = get_guild_summary_resolved [where get_guild = get_guild'
      and g = "g\<lparr>channels := cs1 @ cs2\<rparr>", OF assms(1) assms(6)]
  have skipped: "channel_entry ?ts c = []"
    using assms(5) by (simp add: channel_entry_def)
  have logged: "channel_log ?ts c = [?entry]"
    using assms(5) by (cases exc) (simp_all add: channel_log_def)
  have entries: "concat (map (channel_entry ?ts) (text_channels g))
      = concat (map (channel_entry ?ts) (filter (\<lambda>channel. ctype channel = TextChannel) cs1))
        @ concat (map (channel_entry ?ts) (filter (\<lambda>channel. ctype channel = TextChannel) cs2))"
    by (simp add: text_channels_split [OF assms(3)] assms(4) skipped)
  have entries': "concat (map (channel_entry ?ts) (text_channels (g\<lparr>channels := cs1 @ cs2\<rparr>)))
      = concat (map (channel_entry ?ts) (filter (\<lambda>channel. ctype channel = TextChannel) cs1))
        @ concat (map (channel_entry ?ts) (filter (\<lambda>channel. ctype channel = TextChannel) cs2))"
    by (simp add: text_channels_split [OF assms(3)])
  have "?entry \<in> set (concat (map (channel_log ?ts) (text_channels g)))"
    by (simp add: text_channels_split [OF assms(3)] assms(4) logged)
  then have "?entry \<in> set (log ((snd (get_last_summary_timestamp e st gid))
           \<lparr>log := log (snd (get_last_summary_timestamp e st gid))
                   @ concat (map (channel_log ?ts) (text_channels g))\<rparr>))"
    by simp
  then have inlog: "?entry \<in> set (log (snd (get_guild_summary get_guild e st gid)))"
    using update_log_mono by (fastforce simp: r1)
  have digest: "fst (get_guild_summary get_guild e st gid)
                = fst (get_guild_summary get_guild' e st gid)"
    by (simp add: r1
        r2 entries entries')
  have store: "servers (snd (get_guild_summary get_guild e st gid))
           = servers (snd (get_guild_summary get_guild' e st gid))"
    by (simp add: r1
        r2 update_servers_log)
  have calls: "set_calls (snd (get_guild_summary get_guild e st gid))
           = set_calls (snd (get_guild_summary get_guild' e st gid))"
    by (simp add: r1
        r2 update_store(1))
  have ex: "\<exists>d. fst (get_guild_summary get_guild e st gid) = Summary d
            \<and> channel_summaries d =
                concat (map (channel_entry ?ts)
                          (filter (\<lambda>channel. ctype channel = TextChannel) cs1))
                @ concat (map (channel_entry ?ts)
                          (filter (\<lambda>channel. ctype channel = TextChannel) cs2))"
    by (simp add: r1 entries)
  from digest ex store calls inlog show ?thesis
    by blast
qed


theorem channel_failure_skipped_witness:
  "fst (get_guild_summary (demo_bot [demo_channel_forbidden, demo_channel]) demo_env demo_state
          ''42'')
     = fst (get_guild_summary (demo_bot [demo_channel]) demo_env demo_state ''42'')
   \<and> (WARNING, ''No permission to read channel general'')
       \<in> set (log (snd (get_guild_summary (demo_bot [demo_channel_forbidden, demo_channel])
                          demo_env demo_state ''42'')))
   \<and> fst (get_guild_summary (demo_bot [demo_channel_broken, demo_channel]) demo_env demo_state
          ''42'')
     = fst (get_guild_summary (demo_bot [demo_channel]) demo_env demo_state ''42'')
   \<and> (ERROR, ''Error processing channel general: connection reset'')
       \<in> set (log (snd (get_guild_summary (demo_bot [demo_channel_broken, demo_channel])
                          demo_env demo_state ''42'')))"
proof -
  have g: "demo_bot [c, demo_channel] 42 = Some \<lparr>gname = ''guild'', channels = [c, demo_channel]\<rparr>"
    for c
    by (simp add: demo_bot_def)
  have cs: "channels \<lparr>gname = ''guild'', channels = [c, demo_channel]\<rparr> = [] @ c # [demo_channel]"
    for c
    by simp
  have g': "demo_bot [demo_channel] 42
            = Some (\<lparr>gname = ''guild'', channels = [c, demo_channel]\<rparr>
                      \<lparr>channels := [] @ [demo_channel]\<rparr>)" for c
    by (simp add: demo_bot_def)
  have f1: "ctype demo_channel_forbidden = TextChannel"
    by (simp add: demo_channel_forbidden_def)
  have f2: "history demo_channel_forbidden 500
              (fst (get_last_summary_timestamp demo_env demo_state ''42''))
            = Inl (Forbidden ''403 Forbidden'')"
    by (simp add: demo_channel_forbidden_def)
  have b1: "ctype demo_channel_broken = TextChannel"
    by (simp add: demo_channel_broken_def)
  have b2: "history demo_channel_broken 500
              (fst (get_last_summary_timestamp demo_env demo_state ''42''))
            = Inl (Exception ''connection reset'')"
    by (simp add: demo_channel_broken_def)
  note forbidden = channel_failure_skipped
      [where get_guild = "demo_bot [demo_channel_forbidden, demo_channel]"
         and get_guild' = "demo_bot [demo_channel]", OF py_int_42 g cs f1 f2 g']
  note broken = channel_failure_skipped
      [where get_guild = "demo_bot [demo_channel_broken, demo_channel]"
         and get_guild' = "demo_bot [demo_channel]", OF py_int_42 g cs b1 b2 g']
  from forbidden broken show ?thesis
    by (simp add: demo_channel_forbidden_def demo_channel_broken_def)
qed

lemma run_store:
  assumes "py_int gid = Inr n" and "get_guild n = Some g"
  shows "servers (snd (get_guild_summary get_guild e st gid))
           = servers (update_last_summary_timestamp e st gid (utcnow_run e))"
    and "set_calls (snd (get_guild_summary get_guild e st gid))
           = set_calls st @ [(gid, utcnow_run e)]"
proof -
  note r = get_guild_summary_resolved [where get_guild = get_guild and g = g, OF assms]
  have "servers (update_last_summary_timestamp e (snd (get_last_summary_timestamp e st gid))
                   gid (utcnow_run e))
        = servers (update_last_summary_timestamp e st gid (utcnow_run e))"
    by (simp add: update_last_summary_timestamp_def logger_error_def Let_def
        get_last_summary_timestamp_store split: option.splits)
  then show "servers (snd (get_guild_summary get_guild e st gid))
           = servers (update_last_summary_timestamp e st gid (utcnow_run e))"
    by (simp add: r update_servers_log)
  show "set_calls (snd (get_guild_summary get_guild e st gid))
           = set_calls st @ [(gid, utcnow_run e)]"
    by (simp add: r update_store(1) get_last_summary_timestamp_store)
qed

lemma get_after_write:
  assumes "get_raises e' = None"
    and "servers st' gid = Some \<lparr>last_summary = Some ts, updated_at = u\<rparr>"
  shows "fst (get_last_summary_timestamp e' st' gid) = ts"
  using assms by (simp add: get_last_summary_timestamp_def doc_get_def)

lemma env_commit_clock:
  "get_last_summary_timestamp (e\<lparr>utcnow_commit := t\<rparr>) st gid
     = get_last_summary_timestamp e st gid"
  "update_last_summary_timestamp (e\<lparr>utcnow_commit := t\<rparr>) st gid ts
     = update_last_summary_timestamp e st gid ts"
  by (simp_all add: get_last_summary_timestamp_def doc_get_def
      update_last_summary_timestamp_def Let_def split: option.splits sum.splits)

lemma run_log:
  assumes "py_int gid = Inr n" and "get_guild n = Some g"
  shows "log (snd (get_guild_summary get_guild e st gid))
     = log (snd (get_last_summary_timestamp e st gid))
       @ concat (map (channel_log (fst (get_last_summary_timestamp e st gid)))
                   (text_channels g))
       @ (case set_raises e of
            None \<Rightarrow> []
          | Some m \<Rightarrow> [(ERROR, ''Error updating last summary timestamp: '' @ m)])"
  by (cases "set_raises e")
     (simp_all add: get_guild_summary_resolved [where get_guild = get_guild and g = g, OF assms]
        update_store(4,5))

text \<open>
  Claim C3, amended. In every run in which the guild resolves, the commit is reached and
  asks the store to set the watermark to the instant \<open>current_time\<close>, read before the
  loop over the channels; it is the end of the digest's period, and what the clock shows
  when the commit is made has no part in the run. When the write does not raise, the
  stored watermark is that instant and the commit logs nothing; when it raises, the store
  is left as it was and the error is logged, as the last entry of the log. After a
  successful write, a later \<open>get_last_summary_timestamp\<close> whose read succeeds returns
  that instant; so if the value returned before the run was not later than the run-start
  instant, the value returned after the run is not smaller than it.
\<close>

theorem watermark_commit:
  assumes "py_int gid = Inr n" and "get_guild n = Some g"
  shows "(\<exists>d. fst (get_guild_summary get_guild e st gid) = Summary d
            \<and> period_from d = fst (get_last_summary_timestamp e st gid)
            \<and> period_to d = utcnow_run e)
       \<and> set_calls (snd (get_guild_summary get_guild e st gid))
           = set_calls st @ [(gid, utcnow_run e)]
       \<and> get_guild_summary get_guild (e\<lparr>utcnow_commit := t\<rparr>) st gid
           = get_guild_summary get_guild e st gid
       \<and> (set_raises e = None \<longrightarrow>
            map_option last_summary (servers (snd (get_guild_summary get_guild e st gid)) gid)
              = Some (Some (utcnow_run e)))
       \<and> (set_raises e = None \<longrightarrow>
            log (snd (get_guild_summary get_guild e st gid))
              = log (snd (get_last_summary_timestamp e st gid))
                @ concat (map (channel_log (fst (get_last_summary_timestamp e st gid)))
                            (text_channels g)))
       \<and> (set_raises e \<noteq> None \<longrightarrow>
            servers (snd (get_guild_summary get_guild e st gid)) = servers st)
       \<and> (\<forall>m. set_raises e = Some m \<longrightarrow>
            log (snd (get_guild_summary get_guild e st gid))
              = log (snd (get_last_summary_timestamp e st gid))
                @ concat (map (channel_log (fst (get_last_summary_timestamp e st gid)))
                            (text_channels g))
                @ [(ERROR, ''Error updating last summary timestamp: '' @ m)])
       \<and> (set_raises e = None \<and> get_raises e' = None \<longrightarrow>
            fst (get_last_summary_timestamp e' (snd (get_guild_summary get_guild e st gid)) gid)
              = utcnow_run e)
       \<and> (set_raises e = None \<and> get_raises e' = None
            \<and> fst (get_last_summary_timestamp e st gid) \<le> utcnow_run e \<longrightarrow>
            fst (get_last_summary_timestamp e st gid)
              \<le> fst (get_last_summary_timestamp e' (snd (get_guild_summary get_guild e st gid))
                       gid))"
proof -
  note r = get_guild_summary_resolved [where get_guild = get_guild and g = g, OF assms]
  note s = run_store [where get_guild = get_guild and g = g, OF assms]
  note l = run_log [where get_guild = get_guild and g = g, OF assms]
  have digest: "\<exists>d. fst (get_guild_summary get_guild e st gid) = Summary d
            \<and> period_from d = fst (get_last_summary_timestamp e st gid)
            \<and> period_to d = utcnow_run e"
    by (simp add: r)
  have clock: "get_guild_summary get_guild (e\<lparr>utcnow_commit := t\<rparr>) st gid
           = get_guild_summary get_guild e st gid"
    by (simp add: get_guild_summary_def env_commit_clock Let_def
        split: sum.splits option.splits prod.splits)
  have written: "servers (snd (get_guild_summary get_guild e st gid)) gid
      = Some \<lparr>last_summary = Some (utcnow_run e), updated_at = Some (server_timestamp e)\<rparr>"
    if "set_raises e = None"
    using that by (simp add: s(1) update_store(2))
  have kept: "servers (snd (get_guild_summary get_guild e st gid)) = servers st"
    if "set_raises e \<noteq> None"
    using that by (auto simp: s(1) update_store(3))
  have after: "fst (get_last_summary_timestamp e' (snd (get_guild_summary get_guild e st gid)) gid)
              = utcnow_run e"
    if "set_raises e = None" and "get_raises e' = None"
    using that(2) written [OF that(1)] by (rule get_after_write)
  show ?thesis
    using digest written kept after
    by (simp add: s(2) clock l)
qed

theorem watermark_commit_witness:
  "map_option last_summary
     (servers (snd (get_guild_summary (demo_bot [demo_channel]) demo_env demo_state ''42''))
        ''42'') = Some (Some 2000)
   \<and> fst (get_last_summary_timestamp demo_env demo_state ''42'') = 500
   \<and> fst (get_last_summary_timestamp demo_env
            (snd (get_guild_summary (demo_bot [demo_channel]) demo_env demo_state ''42''))
            ''42'') = 2000
   \<and> set_calls (snd (get_guild_summary (demo_bot [demo_channel]) demo_env demo_state ''42''))
       = [(''42'', 2000)]
   \<and> utcnow_commit demo_env = 2500
   \<and> get_guild_summary (demo_bot [demo_channel]) (demo_env\<lparr>utcnow_commit := 9000\<rparr>)
         demo_state ''42''
       = get_guild_summary (demo_bot [demo_channel]) demo_env demo_state ''42''
   \<and> log (snd (get_guild_summary (demo_bot [demo_channel]) demo_env demo_state ''42'')) = []
   \<and> servers (snd (get_guild_summary (demo_bot [demo_channel])
                   (demo_env\<lparr>set_raises := Some ''unavailable''\<rparr>) demo_state ''42''))
       = servers demo_state
   \<and> log (snd (get_guild_summary (demo_bot [demo_channel])
                   (demo_env\<lparr>set_raises := Some ''unavailable''\<rparr>) demo_state ''42''))
       = [(ERROR, ''Error updating last summary timestamp: unavailable'')]"
proof -
  have g: "demo_bot [demo_channel] 42 = Some \<lparr>gname = ''guild'', channels = [demo_channel]\<rparr>"
    by (simp add: demo_bot_def)
  have e: "set_raises demo_env = None" "get_raises demo_env = None" "utcnow_run demo_env = 2000"
    "utcnow_commit demo_env = 2500"
    by (simp_all add: demo_env_def)
  have st: "set_calls demo_state = []" "log demo_state = []"
    by (simp_all add: demo_state_def)
  have quiet: "log (snd (get_last_summary_timestamp e' demo_state ''42'')) = []"
    if "get_raises e' = None" for e'
    using that by (simp add: get_last_summary_timestamp_def doc_get_def demo_state_def)
  have lb: "fst (get_last_summary_timestamp e' demo_state ''42'') = 500"
    if "get_raises e' = None" for e'
    using that by (simp add: get_last_summary_timestamp_def doc_get_def demo_state_def)
  have nolog: "concat (map (channel_log 500)
                  (text_channels \<lparr>gname = ''guild'', channels = [demo_channel]\<rparr>)) = []"
    by (simp add: text_channels_def channel_log_def demo_channel_def)
  from watermark_commit [where get_guild = "demo_bot [demo_channel]" and e = demo_env
      and e' = demo_env and st = demo_state and t = 9000, OF py_int_42 g] e st
    demo_lower_bound quiet [of demo_env] nolog
  have ok: "map_option last_summary
     (servers (snd (get_guild_summary (demo_bot [demo_channel]) demo_env demo_state ''42''))
        ''42'') = Some (Some 2000)
   \<and> fst (get_last_summary_timestamp demo_env
            (snd (get_guild_summary (demo_bot [demo_channel]) demo_env demo_state ''42''))
            ''42'') = 2000
   \<and> set_calls (snd (get_guild_summary (demo_bot [demo_channel]) demo_env demo_state ''42''))
       = [(''42'', 2000)]
   \<and> get_guild_summary (demo_bot [demo_channel]) (demo_env\<lparr>utcnow_commit := 9000\<rparr>)
         demo_state ''42''
       = get_guild_summary (demo_bot [demo_channel]) demo_env demo_state ''42''
   \<and> log (snd (get_guild_summary (demo_bot [demo_channel]) demo_env demo_state ''42'')) = []"
    by simp
  have e2: "set_raises (demo_env\<lparr>set_raises := Some ''unavailable''\<rparr>) = Some ''unavailable''"
    "get_raises (demo_env\<lparr>set_raises := Some ''unavailable''\<rparr>) = None"
    by (simp_all add: demo_env_def)
  from watermark_commit [where get_guild = "demo_bot [demo_channel]"
      and e = "demo_env\<lparr>set_raises := Some ''unavailable''\<rparr>"
      and e' = demo_env and st = demo_state, OF py_int_42 g] e2
    quiet [OF e2(2)] lb [OF e2(2)] nolog
  have failed: "servers (snd (get_guild_summary (demo_bot [demo_channel])
                   (demo_env\<lparr>set_raises := Some ''unavailable''\<rparr>) demo_state ''42''))
       = servers demo_state
     \<and> log (snd (get_guild_summary (demo_bot [demo_channel])
                   (demo_env\<lparr>set_raises := Some ''unavailable''\<rparr>) demo_state ''42''))
       = [(ERROR, ''Error updating last summary timestamp: unavailable'')]"
    by simp
  from ok failed demo_lower_bound e(4) show ?thesis
    by simp
qed

text \<open>
  Claim C3 as stated fails when the write raises: the run resolves the guild, reaches
  the commit and returns its digest, the write is attempted with the run-start instant
  2000, and the stored watermark is still 500.
\<close>

theorem watermark_commit_counterexample:
  "fst (get_guild_summary (demo_bot [demo_channel])
          (demo_env\<lparr>set_raises := Some ''unavailable''\<rparr>) demo_state ''42'')
     = Summary \<lparr> guild_name = ''guild'', gs_guild_id = ''42'', period_from = 500,
         period_to = 2000, total_channels_with_activity = 1, g_total_messages = 1,
         channel_summaries =
           [\<lparr> channel_name = ''general'', channel_id = ''7'',
              summary = \<lparr> total_messages = 1,
                 highlights = [\<lparr> author = ''ann'', hl_content = ''release notes are ready'',
                                 hl_reactions = 0, timestamp = 1500 \<rparr>],
                 summary_keywords = [''release'', ''notes'', ''ready''] \<rparr> \<rparr>],
         member_changes = ''Member changes not tracked in this version'' \<rparr>
   \<and> set_calls (snd (get_guild_summary (demo_bot [demo_channel])
          (demo_env\<lparr>set_raises := Some ''unavailable''\<rparr>) demo_state ''42''))
       = [(''42'', 2000)]
   \<and> map_option last_summary
       (servers (snd (get_guild_summary (demo_bot [demo_channel])
          (demo_env\<lparr>set_raises := Some ''unavailable''\<rparr>) demo_state ''42'')) ''42'')
       = Some (Some 500)
   \<and> map_option last_summary
       (servers (snd (get_guild_summary (demo_bot [demo_channel])
          (demo_env\<lparr>set_raises := Some ''unavailable''\<rparr>) demo_state ''42'')) ''42'')
       \<noteq> Some (Some 2000)"
  by code_simp


text \<open>
  Claim C10, amended. In every run in which the guild resolves, whatever the channels
  did, \<open>doc_ref.set\<close> is called exactly once, with the run-start instant, and the store
  after the run is the store after that one write. When the write does not raise, the
  next run whose read of the watermark succeeds has the run-start instant as its lower
  bound and asks every channel, those that failed before too, only for what came after
  it.
\<close>

theorem commit_unconditional:
  assumes "py_int gid = Inr n" and "get_guild n = Some g" and "get_guild' n = Some g'"
  shows "set_calls (snd (get_guild_summary get_guild e st gid))
           = set_calls st @ [(gid, utcnow_run e)]
       \<and> servers (snd (get_guild_summary get_guild e st gid))
           = servers (update_last_summary_timestamp e st gid (utcnow_run e))
       \<and> (set_raises e = None \<and> get_raises e' = None \<longrightarrow>
            (\<exists>d'. fst (get_guild_summary get_guild' e'
                         (snd (get_guild_summary get_guild e st gid)) gid) = Summary d'
                \<and> period_from d' = utcnow_run e
                \<and> channel_summaries d'
                    = concat (map (channel_entry (utcnow_run e)) (text_channels g'))))"
proof -
  note s = run_store [where get_guild = get_guild and g = g, OF assms(1,2)]
  let ?st' = "snd (get_guild_summary get_guild e st gid)"
  have "\<exists>d'. fst (get_guild_summary get_guild' e' ?st' gid) = Summary d'
                \<and> period_from d' = utcnow_run e
                \<and> channel_summaries d'
                    = concat (map (channel_entry (utcnow_run e)) (text_channels g'))"
    if w: "set_raises e = None" and r: "get_raises e' = None"
  proof -
    have "servers ?st' gid
        = Some \<lparr>last_summary = Some (utcnow_run e), updated_at = Some (server_timestamp e)\<rparr>"
      using w by (simp add: s(1) update_store(2))
    with r have "fst (get_last_summary_timestamp e' ?st' gid) = utcnow_run e"
      by (rule get_after_write)
    then show ?thesis
      by (simp add: get_guild_summary_resolved
          [where get_guild = get_guild' and g = g', OF assms(1) assms(3)])
  qed
  then show ?thesis
    by (simp add: s)
qed

theorem commit_unconditional_witness:
  "set_calls (snd (get_guild_summary (demo_bot [demo_channel_forbidden, demo_channel_quiet])
                     demo_env demo_state ''42''))
     = [(''42'', 2000)]
   \<and> map_option last_summary
       (servers (snd (get_guild_summary (demo_bot [demo_channel_forbidden, demo_channel_quiet])
                        demo_env demo_state ''42'')) ''42'')
     = Some (Some 2000)
   \<and> fst (get_guild_summary (demo_bot [demo_channel])
            (demo_env\<lparr>utcnow_default := 2900, utcnow_run := 3000\<rparr>)
            (snd (get_guild_summary (demo_bot [demo_channel_forbidden, demo_channel_quiet])
                    demo_env demo_state ''42''))
            ''42'')
     = Summary \<lparr> guild_name = ''guild'', gs_guild_id = ''42'', period_from = 2000,
         period_to = 3000, total_channels_with_activity = 0, g_total_messages = 0,
         channel_summaries = [],
         member_changes = ''Member changes not tracked in this version'' \<rparr>"
proof -
  let ?run = "get_guild_summary (demo_bot [demo_channel_forbidden, demo_channel_quiet])
                demo_env demo_state ''42''"
  have g: "demo_bot [demo_channel_forbidden, demo_channel_quiet] 42
           = Some \<lparr>gname = ''guild'', channels = [demo_channel_forbidden, demo_channel_quiet]\<rparr>"
    by (simp add: demo_bot_def)
  have g': "demo_bot [demo_channel] 42 = Some \<lparr>gname = ''guild'', channels = [demo_channel]\<rparr>"
    by (simp add: demo_bot_def)
  note inst = commit_unconditional
      [where get_guild = "demo_bot [demo_channel_forbidden, demo_channel_quiet]"
         and get_guild' = "demo_bot [demo_channel]" and e = demo_env and st = demo_state
         and e' = "demo_env\<lparr>utcnow_default := 2900, utcnow_run := 3000\<rparr>",
       OF py_int_42 g g']
  have e: "set_raises demo_env = None" "utcnow_run demo_env = 2000"
    "get_raises (demo_env\<lparr>utcnow_default := 2900, utcnow_run := 3000\<rparr>) = None"
    by (simp_all add: demo_env_def)
  from inst have calls: "set_calls (snd ?run) = [(''42'', 2000)]"
    by (simp add: e demo_state_def)
  from inst have "servers (snd ?run)
      = servers (update_last_summary_timestamp demo_env demo_state ''42'' 2000)"
    by (simp add: e)
  then have stored: "map_option last_summary (servers (snd ?run) ''42'') = Some (Some 2000)"
    by (simp add: update_store(2) e)
  from inst e have "\<exists>d'. fst (get_guild_summary (demo_bot [demo_channel])
            (demo_env\<lparr>utcnow_default := 2900, utcnow_run := 3000\<rparr>) (snd ?run) ''42'')
          = Summary d' \<and> period_from d' = 2000"
    by auto
  moreover
  have "fst (get_guild_summary (demo_bot [demo_channel])
            (demo_env\<lparr>utcnow_default := 2900, utcnow_run := 3000\<rparr>) (snd ?run) ''42'')
     = Summary \<lparr> guild_name = ''guild'', gs_guild_id = ''42'', period_from = 2000,
         period_to = 3000, total_channels_with_activity = 0, g_total_messages = 0,
         channel_summaries = [],
         member_changes = ''Member changes not tracked in this version'' \<rparr>"
    by code_simp
  ultimately show ?thesis
    using calls stored by simp
qed

text \<open>
  Claim C10 as stated fails in two ways. The channel's read raises in the first run and
  the write of the watermark raises too: the next run starts from the old watermark 500
  again and reports the channel's message of instant 1500. Or the write succeeds and the
  next run's read of the watermark raises: that run starts 24 hours before its own time
  and reports the same message.
\<close>

theorem commit_unconditional_counterexample:
  "set_calls (snd (get_guild_summary (demo_bot [demo_channel_forbidden])
                     (demo_env\<lparr>set_raises := Some ''unavailable''\<rparr>) demo_state ''42''))
     = [(''42'', 2000)]
   \<and> fst (get_guild_summary (demo_bot [demo_channel])
            (demo_env\<lparr>utcnow_default := 2900, utcnow_run := 3000\<rparr>)
            (snd (get_guild_summary (demo_bot [demo_channel_forbidden])
                    (demo_env\<lparr>set_raises := Some ''unavailable''\<rparr>) demo_state ''42''))
            ''42'')
     = Summary \<lparr> guild_name = ''guild'', gs_guild_id = ''42'', period_from = 500,
         period_to = 3000, total_channels_with_activity = 1, g_total_messages = 1,
         channel_summaries =
           [\<lparr> channel_name = ''general'', channel_id = ''7'',
              summary = \<lparr> total_messages = 1,
                 highlights = [\<lparr> author = ''ann'', hl_content = ''release notes are ready'',
                                 hl_reactions = 0, timestamp = 1500 \<rparr>],
                 summary_keywords = [''release'', ''notes'', ''ready''] \<rparr> \<rparr>],
         member_changes = ''Member changes not tracked in this version'' \<rparr>
   \<and> fst (get_guild_summary (demo_bot [demo_channel])
            (demo_env\<lparr>get_raises := Some ''unavailable'', utcnow_default := 2900,
                        utcnow_run := 3000\<rparr>)
            (snd (get_guild_summary (demo_bot [demo_channel_forbidden])
                    demo_env demo_state ''42''))
            ''42'')
     = Summary \<lparr> guild_name = ''guild'', gs_guild_id = ''42'',
         period_from = 2900 - 86400000000,
         period_to = 3000, total_channels_with_activity = 1, g_total_messages = 1,
         channel_summaries =
           [\<lparr> channel_name = ''general'', channel_id = ''7'',
              summary = \<lparr> total_messages = 1,
                 highlights = [\<lparr> author = ''ann'', hl_content = ''release notes are ready'',
                                 hl_reactions = 0, timestamp = 1500 \<rparr>],
                 summary_keywords = [''release'', ''notes'', ''ready''] \<rparr> \<rparr>],
         member_changes = ''Member changes not tracked in this version'' \<rparr>"
  by code_simp

end
